theory Spec2Isabelle
  imports Complex_Main
begin

section \<open>Errors and HTTP outcomes\<close>

text \<open>
  The exceptions of \<^verbatim>\<open>utils/exceptions.py\<close> together with the built-in exceptions
  the modelled code and the library calls in it can raise. \<open>NetworkError\<close> carries the optional \<open>status_code\<close>,
  \<open>RateLimitError\<close> its \<open>retry_after\<close>, \<open>AuthenticationError\<close> the status, and
  \<open>ValueError\<close> its message.
\<close>

datatype error =
    NetworkError "int option"
  | RateLimitError int
  | AuthenticationError int
  | ParsingError
  | ValueError string
  | TypeError
  | AttributeError
  | OverflowError

text \<open>
  A response as far as \<^verbatim>\<open>_make_request\<close> reads it: the status code and the value of
  the \<^verbatim>\<open>Retry-After\<close> header (\<open>None\<close> when the header is absent), plus the body.
\<close>

record response =
  status_code :: int
  retry_after_header :: "string option"
  body :: string

text \<open>
  What \<^verbatim>\<open>session.request\<close> does on one attempt: it returns a response, or raises
  \<^verbatim>\<open>requests.exceptions.Timeout\<close>, \<^verbatim>\<open>ConnectionError\<close>, or some other
  \<^verbatim>\<open>RequestException\<close>.
\<close>

datatype outcome =
    Response response
  | Timeout
  | ConnectionError
  | RequestException

text \<open>
  The transport is scripted by the zero-indexed attempt number of the call: the outcome
  of that attempt and the wall-clock time it took.
\<close>

type_synonym transport = "nat \<Rightarrow> outcome \<times> real"

section \<open>Python's \<^verbatim>\<open>int\<close> on a string\<close>

text \<open>
  A header value is a string of code points below 256 (the HTTP library decodes headers as
  Latin-1), one \<open>char\<close> each. \<^verbatim>\<open>int\<close> turns the whitespace beyond ASCII (here
  U+0085 and U+00A0) into a space and then skips the space, tab, line feed, vertical
  tab, form feed and carriage return at both ends. The separators 0x1C to 0x1F are not
  skipped.
\<close>

definition is_space :: "char \<Rightarrow> bool" where
  "is_space c = (c \<in> set [CHR 0x20, CHR 0x09, CHR 0x0A, CHR 0x0B, CHR 0x0C, CHR 0x0D,
                           CHR 0x85, CHR 0xA0])"

definition is_digit :: "char \<Rightarrow> bool" where
  "is_digit c = (c \<in> set ''0123456789'')"

definition digit_val :: "char \<Rightarrow> nat" where
  "digit_val c = of_char c - 48"

definition strip :: "string \<Rightarrow> string" where
  "strip s = rev (dropWhile is_space (rev (dropWhile is_space s)))"

text \<open>A digit, then digits each optionally preceded by one underscore.\<close>

fun digits_ok :: "string \<Rightarrow> bool" where
  "digits_ok [] = False"
| "digits_ok [c] = is_digit c"
| "digits_ok (c # d # cs) =
     (is_digit c \<and> (if d = CHR ''_'' then digits_ok cs else digits_ok (d # cs)))"

definition digits_value :: "string \<Rightarrow> nat" where
  "digits_value cs = foldl (\<lambda>n c. 10 * n + digit_val c) 0 (filter is_digit cs)"

text \<open>
  \<^verbatim>\<open>int(s)\<close> for a string in base 10: surrounding whitespace is stripped, one sign is
  allowed, and anything else that is not a digit sequence raises \<^verbatim>\<open>ValueError\<close>
  (\<open>None\<close> here), as does a sequence of more than 4300 digits (the interpreter's default
  limit on the conversion).
\<close>

definition number_ok :: "string \<Rightarrow> bool" where
  "number_ok cs = (digits_ok cs \<and> length (filter is_digit cs) \<le> 4300)"

definition py_int :: "string \<Rightarrow> int option" where
  "py_int s =
     (case strip s of
        [] \<Rightarrow> None
      | c # cs \<Rightarrow>
          if c = CHR ''-'' then (if number_ok cs then Some (- int (digits_value cs)) else None)
          else if c = CHR ''+'' then (if number_ok cs then Some (int (digits_value cs)) else None)
          else (if number_ok (c # cs) then Some (int (digits_value (c # cs))) else None))"

section \<open>The scraper instance, the clock and the trace\<close>

text \<open>
  The fields of \<^verbatim>\<open>BaseScraper\<close> that the request pipeline reads or writes.
  \<open>last_request_time\<close> is \<^verbatim>\<open>_last_request_time\<close>. The three floats are real
  numbers here, and nothing restricts the configuration: the constructor stores what it
  is given.
\<close>

record scraper =
  rate_limit :: real
  max_retries :: int
  retry_delay :: real
  last_request_time :: real

text \<open>
  Each event records one effect of \<^verbatim>\<open>_make_request\<close>, tagged by the place in the
  source that causes it: the call of \<^verbatim>\<open>_respect_rate_limit\<close> (line 129), its sleep
  (line 101), the \<^verbatim>\<open>session.request\<close> of an attempt (line 142), the assignment to
  \<^verbatim>\<open>_last_request_time\<close> (line 151) with the attempt that made it, and the backoff
  sleep of an attempt (lines 173, 193, 205).
\<close>

datatype event =
    RateLimitCheck
  | RateLimitSleep real
  | Request nat
  | ClockSet nat real
  | BackoffSleep nat real

record world =
  now :: real
  events :: "event list"

definition emit :: "event \<Rightarrow> world \<Rightarrow> world" where
  "emit e w = w\<lparr>events := events w @ [e]\<rparr>"

definition advance :: "real \<Rightarrow> world \<Rightarrow> world" where
  "advance d w = w\<lparr>now := now w + d\<rparr>"

text \<open>
  \<^verbatim>\<open>time.sleep(d)\<close> raises \<^verbatim>\<open>ValueError\<close> for a negative \<open>d\<close> and
  \<^verbatim>\<open>OverflowError\<close> for a \<open>d\<close> that does not fit the interpreter's timestamp, a signed
  64-bit count of nanoseconds (about \<open>9.2e9\<close> seconds); otherwise the clock moves on by
  \<open>d\<close>. The event is the caller's tag for the sleep. Durations are real numbers here;
  a float that has overflowed to infinity is beyond \<open>sleep_max\<close> like every duration
  above it.
\<close>

definition sleep_max :: real where
  "sleep_max = (2 ^ 63 - 1) / 10 ^ 9"

definition sleep :: "event \<Rightarrow> real \<Rightarrow> world \<Rightarrow> error + world" where
  "sleep e d w =
     (if d < 0 then Inl (ValueError ''sleep length must be non-negative'')
      else if sleep_max < d then Inl OverflowError
      else Inr (advance d (emit e w)))"

text \<open>
  \<^verbatim>\<open>time.sleep(self.retry_delay * (2**attempt))\<close>, the backoff of the three retry
  branches. The product of a float and the integer \<^verbatim>\<open>2**attempt\<close> converts the
  integer to a float first, which raises \<^verbatim>\<open>OverflowError\<close> from \<^verbatim>\<open>2**1024\<close> on;
  below that the product with a power of two is exact.
\<close>

definition backoff_sleep :: "real \<Rightarrow> nat \<Rightarrow> world \<Rightarrow> error + world" where
  "backoff_sleep delay attempt w =
     (if 1024 \<le> attempt then Inl OverflowError
      else sleep (BackoffSleep attempt (delay * 2 ^ attempt)) (delay * 2 ^ attempt) w)"

text \<open>\<open>backoff_ok delay a\<close>: the backoff of attempt \<open>a\<close> is carried out.\<close>

definition backoff_ok :: "real \<Rightarrow> nat \<Rightarrow> bool" where
  "backoff_ok delay a = (a < 1024 \<and> 0 \<le> delay * 2 ^ a \<and> delay * 2 ^ a \<le> sleep_max)"

section \<open>\<^verbatim>\<open>BaseScraper._respect_rate_limit\<close>\<close>

text \<open>
  The result is the exception raised, if any, and the world at that point: the check is
  on the trace also when the sleep raises.
\<close>

definition respect_rate_limit :: "scraper \<Rightarrow> world \<Rightarrow> error option \<times> world" where
  "respect_rate_limit s w =
     (let w1 = emit RateLimitCheck w in
      if rate_limit s > 0 then
        (let elapsed = now w1 - last_request_time s in
         if elapsed < rate_limit s then
           (let sleep_time = rate_limit s - elapsed
            in case sleep (RateLimitSleep sleep_time) sleep_time w1 of
                 Inl e \<Rightarrow> (Some e, w1)
               | Inr w2 \<Rightarrow> (None, w2))
         else (None, w1))
      else (None, w1))"

section \<open>\<^verbatim>\<open>BaseScraper._make_request\<close>\<close>

text \<open>
  The retriable branch shared by the 5xx case and the two \<^verbatim>\<open>except\<close> clauses is
  written out in each place, as in the source; an exception of its sleep leaves the
  function. \<open>attempt_loop\<close> is the
  \<^verbatim>\<open>for attempt in range(self.max_retries + 1)\<close> loop from a given attempt on; when
  the range is exhausted the statement after the loop raises \<open>NetworkError\<close>.
\<close>

function attempt_loop ::
  "transport \<Rightarrow> nat \<Rightarrow> scraper \<Rightarrow> world \<Rightarrow> (error + response) \<times> scraper \<times> world" where
  "attempt_loop tr attempt s w =
     (if \<not> int attempt < max_retries s + 1 then (Inl (NetworkError None), s, w)
      else
        (let w1 = advance (snd (tr attempt)) (emit (Request attempt) w) in
         case fst (tr attempt) of
           Response r \<Rightarrow>
             (let s1 = s\<lparr>last_request_time := now w1\<rparr>;
                  w2 = emit (ClockSet attempt (now w1)) w1 in
              if status_code r = 200 then (Inr r, s1, w2)
              else if status_code r = 429 then
                (case (case retry_after_header r of None \<Rightarrow> Some 60 | Some h \<Rightarrow> py_int h) of
                   None \<Rightarrow> (Inl (ValueError ''invalid literal for int() with base 10''), s1, w2)
                 | Some retry_after \<Rightarrow> (Inl (RateLimitError retry_after), s1, w2))
              else if status_code r = 401 \<or> status_code r = 403 then
                (Inl (AuthenticationError (status_code r)), s1, w2)
              else if status_code r \<ge> 500 then
                (if int attempt < max_retries s then
                   (case backoff_sleep (retry_delay s) attempt w2 of
                      Inl e \<Rightarrow> (Inl e, s1, w2)
                    | Inr w3 \<Rightarrow> attempt_loop tr (Suc attempt) s1 w3)
                 else (Inl (NetworkError (Some (status_code r))), s1, w2))
              else (Inl (NetworkError (Some (status_code r))), s1, w2))
         | Timeout \<Rightarrow>
             (if int attempt < max_retries s then
                (case backoff_sleep (retry_delay s) attempt w1 of
                   Inl e \<Rightarrow> (Inl e, s, w1)
                 | Inr w3 \<Rightarrow> attempt_loop tr (Suc attempt) s w3)
              else (Inl (NetworkError None), s, w1))
         | ConnectionError \<Rightarrow>
             (if int attempt < max_retries s then
                (case backoff_sleep (retry_delay s) attempt w1 of
                   Inl e \<Rightarrow> (Inl e, s, w1)
                 | Inr w3 \<Rightarrow> attempt_loop tr (Suc attempt) s w3)
              else (Inl (NetworkError None), s, w1))
         | RequestException \<Rightarrow> (Inl (NetworkError None), s, w1)))"
  by pat_completeness auto
termination
  by (relation "measure (\<lambda>(tr, attempt, s, w). nat (max_retries s + 1 - int attempt))") auto

definition make_request :: "transport \<Rightarrow> scraper \<Rightarrow> world \<Rightarrow> (error + response) \<times> scraper \<times> world" where
  "make_request tr s w =
     (case respect_rate_limit s w of
        (Some e, w1) \<Rightarrow> (Inl e, s, w1)
      | (None, w1) \<Rightarrow> attempt_loop tr 0 s w1)"

text \<open>Projections of a trace.\<close>

definition requests :: "event list \<Rightarrow> nat list" where
  "requests es = concat (map (\<lambda>e. case e of Request a \<Rightarrow> [a] | _ \<Rightarrow> []) es)"

definition backoffs :: "event list \<Rightarrow> (nat \<times> real) list" where
  "backoffs es = concat (map (\<lambda>e. case e of BackoffSleep a d \<Rightarrow> [(a, d)] | _ \<Rightarrow> []) es)"

definition clock_sets :: "event list \<Rightarrow> nat list" where
  "clock_sets es = concat (map (\<lambda>e. case e of ClockSet a t \<Rightarrow> [a] | _ \<Rightarrow> []) es)"

definition rate_limit_checks :: "event list \<Rightarrow> nat" where
  "rate_limit_checks es = length (filter (\<lambda>e. e = RateLimitCheck) es)"

text \<open>
  \<open>extends xs ys\<close>: the trace \<open>ys\<close> continues \<open>xs\<close>. \<open>new_events\<close> is what one
  call of \<^verbatim>\<open>_make_request\<close> adds to the trace.
\<close>

definition extends :: "event list \<Rightarrow> event list \<Rightarrow> bool" where
  "extends xs ys = (take (length xs) ys = xs)"

definition new_events :: "transport \<Rightarrow> scraper \<Rightarrow> world \<Rightarrow> event list" where
  "new_events tr s w = drop (length (events w)) (events (snd (snd (make_request tr s w))))"

definition is_response :: "outcome \<Rightarrow> bool" where
  "is_response x = (case x of Response r \<Rightarrow> True | _ \<Rightarrow> False)"

text \<open>What the retry loop, entered at a given attempt, adds to the trace.\<close>

definition loop_events :: "transport \<Rightarrow> nat \<Rightarrow> scraper \<Rightarrow> world \<Rightarrow> event list" where
  "loop_events tr a s w = drop (length (events w)) (events (snd (snd (attempt_loop tr a s w))))"

text \<open>
  \<open>clock_follows_request es\<close>: every assignment to \<^verbatim>\<open>_last_request_time\<close> in the
  trace comes directly after the request of the same attempt. \<open>clock_after t es\<close> is the
  value of \<^verbatim>\<open>_last_request_time\<close> after the assignments recorded in \<open>es\<close>, starting
  from \<open>t\<close>.
\<close>

fun clock_follows_request :: "event list \<Rightarrow> bool" where
  "clock_follows_request [] = True"
| "clock_follows_request (ClockSet a t # es) = False"
| "clock_follows_request (Request a # ClockSet b t # es) = (a = b \<and> clock_follows_request es)"
| "clock_follows_request (e # es) = clock_follows_request es"

definition clock_after :: "real \<Rightarrow> event list \<Rightarrow> real" where
  "clock_after t es = foldl (\<lambda>t e. case e of ClockSet a t' \<Rightarrow> t' | _ \<Rightarrow> t) t es"

section \<open>Dates and \<^verbatim>\<open>helpers.validate_date\<close>\<close>

text \<open>
  A \<^verbatim>\<open>datetime\<close>: its wall-clock fields as one count of microseconds, the identity
  of its \<^verbatim>\<open>tzinfo\<close> object (\<open>None\<close> for a naive value), and what that object gives
  as the offset from UTC for this value.
\<close>

record datetime =
  wall :: int
  tzinfo :: "nat option"
  tz_offset :: "int option"

text \<open>\<^verbatim>\<open>datetime.utcoffset()\<close>: \<^verbatim>\<open>None\<close> without a \<^verbatim>\<open>tzinfo\<close>.\<close>

definition utcoffset :: "datetime \<Rightarrow> int option" where
  "utcoffset d = (case tzinfo d of None \<Rightarrow> None | Some z \<Rightarrow> tz_offset d)"

text \<open>
  \<^verbatim>\<open>a > b\<close> on two \<^verbatim>\<open>datetime\<close> values, as the standard library orders them: the
  wall-clock fields are compared when both have the same \<^verbatim>\<open>tzinfo\<close> object or equal
  offsets, \<^verbatim>\<open>TypeError\<close> (\<open>None\<close> here) is raised when just one of them has an offset,
  and otherwise the UTC instants are compared.
\<close>

definition dt_gt :: "datetime \<Rightarrow> datetime \<Rightarrow> bool option" where
  "dt_gt a b =
     (if tzinfo a = tzinfo b \<or> utcoffset a = utcoffset b then Some (wall a > wall b)
      else
        (case (utcoffset a, utcoffset b) of
           (Some oa, Some ob) \<Rightarrow> Some (wall a - oa > wall b - ob)
         | _ \<Rightarrow> None))"

text \<open>
  A date argument as the caller passes it: \<^verbatim>\<open>None\<close>, a string, a
  \<^verbatim>\<open>datetime\<close>, or a value of any other type, of which only its truth value matters.
\<close>

datatype date_arg =
    DateNone
  | DateStr string
  | DateTime datetime
  | DateOther bool

definition truthy :: "date_arg \<Rightarrow> bool" where
  "truthy x = (case x of DateNone \<Rightarrow> False | DateStr t \<Rightarrow> t \<noteq> [] | DateTime d \<Rightarrow> True
               | DateOther b \<Rightarrow> b)"

text \<open>
  \<^verbatim>\<open>dateutil.parser.parse\<close> is a library outside the repository: its behaviour on a
  non-empty string is the parameter \<open>p\<close>, which returns the date or the exception the
  parser raises (its \<^verbatim>\<open>ParserError\<close> is a \<^verbatim>\<open>ValueError\<close>; it can also raise
  \<^verbatim>\<open>OverflowError\<close>). On the empty string it raises \<^verbatim>\<open>ParserError\<close>.
\<close>

type_synonym date_parser = "string \<Rightarrow> error + datetime"

definition date_parser_parse :: "date_parser \<Rightarrow> string \<Rightarrow> error + datetime" where
  "date_parser_parse p t =
     (if t = [] then Inl (ValueError ''String does not contain a date: '') else p t)"

text \<open>
  The \<^verbatim>\<open>except (ValueError, TypeError)\<close> clause turns these two into the
  \<^verbatim>\<open>ValueError\<close> of \<^verbatim>\<open>validate_date\<close>; any other exception of the parser
  leaves the function as it is.
\<close>

definition validate_date :: "date_parser \<Rightarrow> date_arg \<Rightarrow> error + datetime option" where
  "validate_date p date_input =
     (case date_input of
        DateNone \<Rightarrow> Inr None
      | DateTime d \<Rightarrow> Inr (Some d)
      | DateStr t \<Rightarrow>
          (case date_parser_parse p t of
             Inr d \<Rightarrow> Inr (Some d)
           | Inl (ValueError m) \<Rightarrow> Inl (ValueError (''Invalid date format: '' @ t))
           | Inl TypeError \<Rightarrow> Inl (ValueError (''Invalid date format: '' @ t))
           | Inl e \<Rightarrow> Inl e)
      | DateOther b \<Rightarrow> Inl (ValueError ''Unsupported date type''))"

text \<open>
  \<open>parses_as p x d\<close>: the date argument \<open>x\<close> is a parseable date input that stands for
  \<open>d\<close>, that is, the \<^verbatim>\<open>datetime\<close> \<open>d\<close> itself or a non-empty string that the parser
  reads as \<open>d\<close>. \<open>unparseable p t\<close>: the parser raises on the string \<open>t\<close>.
\<close>

definition parses_as :: "date_parser \<Rightarrow> date_arg \<Rightarrow> datetime \<Rightarrow> bool" where
  "parses_as p x d =
     (case x of
        DateTime d' \<Rightarrow> d' = d
      | DateStr t \<Rightarrow> t \<noteq> [] \<and> p t = Inr d
      | _ \<Rightarrow> False)"

definition unparseable :: "date_parser \<Rightarrow> string \<Rightarrow> bool" where
  "unparseable p t = (case p t of Inl e \<Rightarrow> True | Inr d \<Rightarrow> False)"

section \<open>\<^verbatim>\<open>BaseScraper.validate_search_params\<close>\<close>

text \<open>
  The \<^verbatim>\<open>limit\<close> argument: \<^verbatim>\<open>None\<close>, an \<^verbatim>\<open>int\<close> (a Python
  \<^verbatim>\<open>bool\<close> is an \<^verbatim>\<open>int\<close>: \<^verbatim>\<open>True\<close> is 1 and \<^verbatim>\<open>False\<close> is 0), or a
  value that is not an instance of \<^verbatim>\<open>int\<close>.
\<close>

datatype limit_arg =
    LimitNone
  | LimitInt int
  | LimitOther

text \<open>
  The returned dictionary: a key is present exactly when its field is \<open>Some\<close>.
\<close>

record search_params =
  start_date :: "datetime option"
  end_date :: "datetime option"
  limit :: "int option"

definition validate_search_params ::
  "date_parser \<Rightarrow> date_arg \<Rightarrow> date_arg \<Rightarrow> limit_arg \<Rightarrow> error + search_params" where
  "validate_search_params p start end lmt =
     (case (if truthy start then validate_date p start else Inr None) of
        Inl e \<Rightarrow> Inl e
      | Inr sd \<Rightarrow>
     (case (if truthy end then validate_date p end else Inr None) of
        Inl e \<Rightarrow> Inl e
      | Inr ed \<Rightarrow>
     (case (case (sd, ed) of
              (Some a, Some b) \<Rightarrow>
                (case dt_gt a b of
                   None \<Rightarrow> Inl TypeError
                 | Some True \<Rightarrow> Inl (ValueError ''Start date must be before end date'')
                 | Some False \<Rightarrow> Inr ())
            | _ \<Rightarrow> Inr ()) of
        Inl e \<Rightarrow> Inl e
      | Inr u \<Rightarrow>
     (case lmt of
        LimitNone \<Rightarrow> Inr \<lparr>start_date = sd, end_date = ed, limit = None\<rparr>
      | LimitInt n \<Rightarrow>
          if n \<le> 0 then Inl (ValueError ''Limit must be a positive integer'')
          else Inr \<lparr>start_date = sd, end_date = ed, limit = Some (min n 1000)\<rparr>
      | LimitOther \<Rightarrow> Inl (ValueError ''Limit must be a positive integer'')))))"

section \<open>\<^verbatim>\<open>BaseScraper._parse_html\<close>\<close>

datatype builder = Lxml | HtmlParser

text \<open>
  The \<^verbatim>\<open>BeautifulSoup\<close> constructor is a library outside the repository: what a
  tree builder makes of a string is the parameter \<open>bs\<close> (\<open>None\<close> when it raises). The
  constructor itself raises on \<^verbatim>\<open>None\<close> markup with either builder.
\<close>

definition BeautifulSoup ::
  "(builder \<Rightarrow> string \<Rightarrow> 't option) \<Rightarrow> string option \<Rightarrow> builder \<Rightarrow> 't option" where
  "BeautifulSoup bs markup b = (case markup of None \<Rightarrow> None | Some m \<Rightarrow> bs b m)"

definition parse_html :: "(builder \<Rightarrow> string \<Rightarrow> 't option) \<Rightarrow> string option \<Rightarrow> error + 't" where
  "parse_html bs content =
     (case BeautifulSoup bs content Lxml of
        Some t \<Rightarrow> Inr t
      | None \<Rightarrow>
          (case BeautifulSoup bs content HtmlParser of
             Some t \<Rightarrow> Inr t
           | None \<Rightarrow> Inl ParsingError))"

text \<open>
  A tree builder that accepts every string and keeps it as the tree, as the lenient
  \<^verbatim>\<open>html.parser\<close> builder accepts every string.
\<close>

definition lenient_builder :: "builder \<Rightarrow> string \<Rightarrow> string option" where
  "lenient_builder b m = Some m"

section \<open>Adapters: \<^verbatim>\<open>search_cases\<close>\<close>

text \<open>
  The loop over the results of a search page, the same in every adapter: the extraction
  of one record raises (\<open>Inl\<close>), returns \<^verbatim>\<open>None\<close>, or returns a record; only a
  record is appended.
\<close>

fun parse_results :: "('i \<Rightarrow> error + 'c option) \<Rightarrow> 'i list \<Rightarrow> 'c list" where
  "parse_results extract [] = []"
| "parse_results extract (item # items) =
     (case extract item of
        Inl e \<Rightarrow> parse_results extract items
      | Inr None \<Rightarrow> parse_results extract items
      | Inr (Some case_data) \<Rightarrow> case_data # parse_results extract items)"

text \<open>
  A decoded JSON body as \<^verbatim>\<open>CourtListenerScraper.search_cases\<close> reads it: a dictionary
  with its \<^verbatim>\<open>results\<close> entry when that is absent or a list, a dictionary whose
  \<^verbatim>\<open>results\<close> entry cannot be iterated (a number, \<^verbatim>\<open>null\<close>, a boolean), or a
  value without \<^verbatim>\<open>get\<close>. A \<^verbatim>\<open>results\<close> entry that is a string or a dictionary
  is iterated like a list, of its characters or keys.
\<close>

datatype 'i json = JsonDict "'i list option" | JsonDictNoIter | JsonOther

text \<open>
  \<^verbatim>\<open>CourtListenerScraper.search_cases\<close>. \<open>decode\<close> is \<^verbatim>\<open>response.json()\<close>
  (\<open>None\<close> when it raises \<^verbatim>\<open>JSONDecodeError\<close>) and \<open>extract\<close> is
  \<^verbatim>\<open>_parse_search_result\<close>. The query, the court and the keyword arguments only shape
  the URL parameters.
\<close>

definition courtlistener_search_cases ::
  "date_parser \<Rightarrow> (string \<Rightarrow> 'i json option) \<Rightarrow> ('i \<Rightarrow> error + 'c option) \<Rightarrow>
   transport \<Rightarrow> scraper \<Rightarrow> world \<Rightarrow> date_arg \<Rightarrow> date_arg \<Rightarrow> limit_arg \<Rightarrow>
   (error + 'c list) \<times> scraper \<times> world" where
  "courtlistener_search_cases p decode extract tr s w start end lmt =
     (case validate_search_params p start end lmt of
        Inl e \<Rightarrow> (Inl e, s, w)
      | Inr params \<Rightarrow>
          (case make_request tr s w of
             (Inl e, s1, w1) \<Rightarrow> (Inl e, s1, w1)
           | (Inr resp, s1, w1) \<Rightarrow>
               (case decode (body resp) of
                  None \<Rightarrow> (Inl ParsingError, s1, w1)
                | Some JsonOther \<Rightarrow> (Inl AttributeError, s1, w1)
                | Some JsonDictNoIter \<Rightarrow> (Inl TypeError, s1, w1)
                | Some (JsonDict results) \<Rightarrow>
                    (Inr (parse_results extract (case results of None \<Rightarrow> [] | Some xs \<Rightarrow> xs)),
                     s1, w1))))"

text \<open>
  \<^verbatim>\<open>BAILIIScraper.search_cases\<close>. \<open>bs\<close> is the tree builder, \<open>links\<close> is
  \<^verbatim>\<open>soup.find_all\<close> for the case links and \<open>extract\<close> is
  \<^verbatim>\<open>_parse_search_result_link\<close>. The request and the parse sit in one
  \<^verbatim>\<open>try\<close> whose \<^verbatim>\<open>except Exception\<close> raises \<open>ParsingError\<close>.
\<close>

definition bailii_search_cases ::
  "date_parser \<Rightarrow> (builder \<Rightarrow> string \<Rightarrow> 't option) \<Rightarrow> ('t \<Rightarrow> 'i list) \<Rightarrow>
   ('i \<Rightarrow> error + 'c option) \<Rightarrow> transport \<Rightarrow> scraper \<Rightarrow> world \<Rightarrow>
   date_arg \<Rightarrow> date_arg \<Rightarrow> limit_arg \<Rightarrow> (error + 'c list) \<times> scraper \<times> world" where
  "bailii_search_cases p bs links extract tr s w start end lmt =
     (case validate_search_params p start end lmt of
        Inl e \<Rightarrow> (Inl e, s, w)
      | Inr params \<Rightarrow>
          (case make_request tr s w of
             (Inl e, s1, w1) \<Rightarrow> (Inl ParsingError, s1, w1)
           | (Inr resp, s1, w1) \<Rightarrow>
               (case parse_html bs (Some (body resp)) of
                  Inl e \<Rightarrow> (Inl ParsingError, s1, w1)
                | Inr soup \<Rightarrow>
                    (Inr (parse_results extract
                            (take (nat (case limit params of None \<Rightarrow> 100 | Some n \<Rightarrow> n))
                               (links soup))),
                     s1, w1))))"

section \<open>Adapters: \<^verbatim>\<open>get_case_by_id\<close>\<close>

definition startswith :: "string \<Rightarrow> string \<Rightarrow> bool" where
  "startswith t pre = (take (length pre) t = pre)"

text \<open>
  \<open>search q n\<close> is \<^verbatim>\<open>self.search_cases(query=q, limit=n)\<close> and \<open>fetch url\<close> is the
  body of the \<^verbatim>\<open>try\<close> block (\<^verbatim>\<open>_make_request\<close>, \<^verbatim>\<open>_parse_html\<close>,
  \<^verbatim>\<open>_parse_case_detail\<close>); its \<^verbatim>\<open>except Exception\<close> returns \<^verbatim>\<open>None\<close>.
\<close>

definition first_or_none :: "'c list \<Rightarrow> 'c option" where
  "first_or_none cases = (case cases of [] \<Rightarrow> None | c # cs \<Rightarrow> Some c)"

definition legifrance_get_case_by_id ::
  "(string \<Rightarrow> int \<Rightarrow> error + 'c list) \<Rightarrow> (string \<Rightarrow> error + 'c option) \<Rightarrow> string \<Rightarrow> error + 'c option" where
  "legifrance_get_case_by_id search fetch case_id =
     (if case_id = [] then Inl (ValueError ''Case ID is required'')
      else if startswith case_id ''http'' then
        (case fetch case_id of Inl e \<Rightarrow> Inr None | Inr r \<Rightarrow> Inr r)
      else if startswith case_id ''CETATEXT'' \<or> startswith case_id ''JURITEXT'' then
        (case fetch (''https://www.legifrance.gouv.fr'' @ ''/juri/id/'' @ case_id) of
           Inl e \<Rightarrow> Inr None | Inr r \<Rightarrow> Inr r)
      else
        (case search case_id 1 of Inl e \<Rightarrow> Inl e | Inr cases \<Rightarrow> Inr (first_or_none cases)))"

definition canlii_get_case_by_id ::
  "(string \<Rightarrow> int \<Rightarrow> error + 'c list) \<Rightarrow> (string \<Rightarrow> error + 'c option) \<Rightarrow> string \<Rightarrow> error + 'c option" where
  "canlii_get_case_by_id search fetch case_id =
     (if case_id = [] then Inl (ValueError ''Case ID is required'')
      else if startswith case_id ''http'' then
        (case fetch case_id of Inl e \<Rightarrow> Inr None | Inr r \<Rightarrow> Inr r)
      else if CHR ''/'' \<in> set case_id then
        (case fetch (''https://www.canlii.org'' @ ''/en/'' @ case_id @ ''.html'') of
           Inl e \<Rightarrow> Inr None | Inr r \<Rightarrow> Inr r)
      else
        (case search (''citation:'' @ [CHR 0x22] @ case_id @ [CHR 0x22]) 1 of
           Inl e \<Rightarrow> Inl e | Inr cases \<Rightarrow> Inr (first_or_none cases)))"

text \<open>
  \<^verbatim>\<open>CourtListenerScraper.get_case_by_id\<close>: \<open>opinion\<close> and \<open>cluster\<close> are the bodies
  of its two \<^verbatim>\<open>try\<close> blocks. It has no search branch.
\<close>

definition courtlistener_get_case_by_id ::
  "(string \<Rightarrow> error + 'c option) \<Rightarrow> (string \<Rightarrow> error + 'c option) \<Rightarrow> string \<Rightarrow> error + 'c option" where
  "courtlistener_get_case_by_id opinion cluster case_id =
     (if case_id = [] then Inl (ValueError ''Case ID is required'')
      else
        (case opinion (''https://www.courtlistener.com'' @ ''/api/rest/v3/opinions/'' @ case_id @ ''/'') of
           Inr r \<Rightarrow> Inr r
         | Inl e \<Rightarrow>
             (case cluster (''https://www.courtlistener.com'' @ ''/api/rest/v3/clusters/'' @ case_id @ ''/'') of
                Inr r \<Rightarrow> Inr r
              | Inl e2 \<Rightarrow> Inr None)))"

text \<open>
  The fallback as the specification words it: \<^verbatim>\<open>searchCases(query=caseId, limit=1)\<close>,
  then the first hit or absent.
\<close>

definition spec_search_fallback ::
  "(string \<Rightarrow> int \<Rightarrow> error + 'c list) \<Rightarrow> string \<Rightarrow> error + 'c option" where
  "spec_search_fallback search case_id =
     (case search case_id 1 of Inl e \<Rightarrow> Inl e | Inr cases \<Rightarrow> Inr (first_or_none cases))"

section \<open>Concrete collaborators for the examples\<close>

text \<open>
  A date parser that rejects every string, a search that finds record 1 for every query,
  a detail page that yields record 2, a page with three result links, and an extraction
  that raises on link 0, returns \<^verbatim>\<open>None\<close> on link 1 and a record otherwise.
\<close>

definition parse_no_date :: date_parser where
  "parse_no_date t = Inl (ValueError ''Unknown string format'')"

text \<open>
  A date parser that reads two ISO dates as naive values (the microseconds since the
  start of 2023) and one ISO timestamp with the suffix Z as a value in UTC, raises \<^verbatim>\<open>OverflowError\<close> on a run of twenty nines, and rejects
  every other string.
\<close>

definition demo_parse_date :: date_parser where
  "demo_parse_date t =
     (if t = ''2023-01-01'' then Inr \<lparr>wall = 0, tzinfo = None, tz_offset = None\<rparr>
      else if t = ''2023-12-31'' then Inr \<lparr>wall = 31449600000000, tzinfo = None, tz_offset = None\<rparr>
      else if t = ''2023-06-01T00:00:00Z''
        then Inr \<lparr>wall = 13046400000000, tzinfo = Some 0, tz_offset = Some 0\<rparr>
      else if t = ''99999999999999999999'' then Inl OverflowError
      else Inl (ValueError ''Unknown string format''))"

definition demo_search :: "string \<Rightarrow> int \<Rightarrow> error + nat list" where
  "demo_search q n = Inr [1]"

definition demo_fetch :: "string \<Rightarrow> error + nat option" where
  "demo_fetch url = Inr (Some 2)"

definition demo_links :: "string \<Rightarrow> nat list" where
  "demo_links soup = [0, 1, 2]"

definition demo_extract :: "nat \<Rightarrow> error + nat option" where
  "demo_extract i = (if i = 0 then Inl AttributeError else if i = 1 then Inr None else Inr (Some i))"

text \<open>
  A scraper with the default configuration except that pacing is off, an initial world,
  and scripted transports: one that answers 429 with \<^verbatim>\<open>Retry-After: 60\<close>, one that
  answers 429 with an HTTP-date in \<^verbatim>\<open>Retry-After\<close>, one that answers 500 on the first
  \<open>n\<close> attempts and then 200, and one that always times out. Every attempt takes one second.
\<close>

definition demo_scraper :: scraper where
  "demo_scraper = \<lparr>rate_limit = 0, max_retries = 3, retry_delay = 1, last_request_time = 0\<rparr>"

definition demo_world :: world where
  "demo_world = \<lparr>now = 100, events = []\<rparr>"

definition transport_429 :: transport where
  "transport_429 a = (Response \<lparr>status_code = 429, retry_after_header = Some ''60'', body = []\<rparr>, 1)"

definition transport_429_date :: transport where
  "transport_429_date a =
     (Response \<lparr>status_code = 429,
                retry_after_header = Some ''Wed, 21 Oct 2015 07:28:00 GMT'', body = []\<rparr>, 1)"

definition transport_500_then_200 :: "nat \<Rightarrow> transport" where
  "transport_500_then_200 n a =
     (if a < n then (Response \<lparr>status_code = 500, retry_after_header = None, body = []\<rparr>, 1)
      else (Response \<lparr>status_code = 200, retry_after_header = None, body = ''ok''\<rparr>, 1))"

definition transport_timeout :: transport where
  "transport_timeout a = (Timeout, 1)"

section \<open>Properties of the request loop\<close>

text \<open>
  The equation of \<open>attempt_loop\<close> rewrites its own right-hand side, so it is unfolded
  by hand. The projections of a trace distribute over concatenation.
\<close>

declare attempt_loop.simps [simp del]

lemma requests_append [simp]: "requests (xs @ ys) = requests xs @ requests ys"
  by (simp add: requests_def)
lemma backoffs_append [simp]: "backoffs (xs @ ys) = backoffs xs @ backoffs ys"
  by (simp add: backoffs_def)
lemma clock_sets_append [simp]: "clock_sets (xs @ ys) = clock_sets xs @ clock_sets ys"
  by (simp add: clock_sets_def)
lemma rate_limit_checks_append [simp]:
  "rate_limit_checks (xs @ ys) = rate_limit_checks xs + rate_limit_checks ys"
  by (simp add: rate_limit_checks_def)
lemma clock_after_append [simp]: "clock_after t (xs @ ys) = clock_after (clock_after t xs) ys"
  by (simp add: clock_after_def)

lemma requests_simps [simp]:
  "requests [] = []" "requests (Request a # es) = a # requests es"
  "requests (RateLimitCheck # es) = requests es" "requests (RateLimitSleep d # es) = requests es"
  "requests (ClockSet a t # es) = requests es" "requests (BackoffSleep a d # es) = requests es"
  by (simp_all add: requests_def)

lemma backoffs_simps [simp]:
  "backoffs [] = []" "backoffs (BackoffSleep a d # es) = (a, d) # backoffs es"
  "backoffs (RateLimitCheck # es) = backoffs es" "backoffs (RateLimitSleep d # es) = backoffs es"
  "backoffs (ClockSet a t # es) = backoffs es" "backoffs (Request a # es) = backoffs es"
  by (simp_all add: backoffs_def)

lemma clock_sets_simps [simp]:
  "clock_sets [] = []" "clock_sets (ClockSet a t # es) = a # clock_sets es"
  "clock_sets (RateLimitCheck # es) = clock_sets es" "clock_sets (RateLimitSleep d # es) = clock_sets es"
  "clock_sets (Request a # es) = clock_sets es" "clock_sets (BackoffSleep a d # es) = clock_sets es"
  by (simp_all add: clock_sets_def)

lemma rate_limit_checks_simps [simp]:
  "rate_limit_checks [] = 0" "rate_limit_checks (RateLimitCheck # es) = Suc (rate_limit_checks es)"
  "rate_limit_checks (ClockSet a t # es) = rate_limit_checks es"
  "rate_limit_checks (RateLimitSleep d # es) = rate_limit_checks es"
  "rate_limit_checks (Request a # es) = rate_limit_checks es"
  "rate_limit_checks (BackoffSleep a d # es) = rate_limit_checks es"
  by (simp_all add: rate_limit_checks_def)

lemma clock_after_simps [simp]:
  "clock_after t [] = t" "clock_after t (ClockSet a t' # es) = clock_after t' es"
  "clock_after t (RateLimitCheck # es) = clock_after t es"
  "clock_after t (RateLimitSleep d # es) = clock_after t es"
  "clock_after t (Request a # es) = clock_after t es"
  "clock_after t (BackoffSleep a d # es) = clock_after t es"
  by (simp_all add: clock_after_def)

lemma events_emit [simp]: "events (emit e w) = events w @ [e]"
  by (simp add: emit_def)
lemma now_emit [simp]: "now (emit e w) = now w"
  by (simp add: emit_def)
lemma events_advance [simp]: "events (advance d w) = events w"
  by (simp add: advance_def)
lemma now_advance [simp]: "now (advance d w) = now w + d"
  by (simp add: advance_def)

text \<open>The loop only ever appends to the trace.\<close>

lemma extends_iff: "extends xs ys \<longleftrightarrow> (\<exists>es. ys = xs @ es)"
  unfolding extends_def
proof
  assume "take (length xs) ys = xs"
  then have "ys = xs @ drop (length xs) ys" by (metis append_take_drop_id)
  then show "\<exists>es. ys = xs @ es" ..
next
  assume "\<exists>es. ys = xs @ es"
  then show "take (length xs) ys = xs" by auto
qed

lemma extends_refl [simp]: "extends xs xs"
  by (simp add: extends_def)

lemma extends_append [simp]: "extends xs (xs @ es)"
  by (simp add: extends_def)

lemma extends_trans: "extends xs ys \<Longrightarrow> extends ys zs \<Longrightarrow> extends xs zs"
  by (auto simp: extends_iff)

lemma extends_drop: "extends xs ys \<Longrightarrow> ys = xs @ drop (length xs) ys"
  by (auto simp: extends_iff)

lemma drop_through:
  "extends (xs @ pre) zs \<Longrightarrow> drop (length xs) zs = pre @ drop (length (xs @ pre)) zs"
  by (auto simp: extends_iff)

lemma attempt_loop_extends_aux:
  "nat (max_retries s + 1 - int a) = n \<Longrightarrow>
   extends (events w) (events (snd (snd (attempt_loop tr a s w))))"
proof (induction n arbitrary: a s w)
  case 0
  then show ?case by (subst attempt_loop.simps) simp
next
  case (Suc n)
  have IH: "extends (events w) (events (snd (snd (attempt_loop tr (Suc a) s' w'))))"
    if "max_retries s' = max_retries s" "extends (events w) (events w')" for s' w'
  proof -
    have "nat (max_retries s' + 1 - int (Suc a)) = n" using Suc.prems that(1) by simp
    from Suc.IH [OF this] that(2) show ?thesis by (rule extends_trans [rotated])
  qed
  show ?case
    by (subst attempt_loop.simps)
       (auto simp: Let_def sleep_def backoff_sleep_def
             split: outcome.splits sum.splits option.splits if_splits intro!: IH)
qed

lemma attempt_loop_extends:
  "extends (events w) (events (snd (snd (attempt_loop tr a s w))))"
  by (rule attempt_loop_extends_aux [OF refl])

lemma attempt_loop_events:
  "events (snd (snd (attempt_loop tr a s w))) = events w @ loop_events tr a s w"
  unfolding loop_events_def by (rule extends_drop [OF attempt_loop_extends])

lemma loop_events_rec:
  "events w' = events w @ pre \<Longrightarrow>
   drop (length (events w)) (events (snd (snd (attempt_loop tr a s' w')))) =
     pre @ loop_events tr a s' w'"
  by (simp add: attempt_loop_events)

lemma backoff_sleep:
  "backoff_sleep delay a w =
     (if backoff_ok delay a
      then Inr (advance (delay * 2 ^ a) (emit (BackoffSleep a (delay * 2 ^ a)) w))
      else if 1024 \<le> a \<or> sleep_max < delay * 2 ^ a \<and> 0 \<le> delay * 2 ^ a
        then Inl OverflowError
      else Inl (ValueError ''sleep length must be non-negative''))"
  by (auto simp: backoff_sleep_def backoff_ok_def sleep_def)

text \<open>
  One round of the loop in terms of the events it adds: the request, the assignment to
  \<^verbatim>\<open>_last_request_time\<close> when a response came back, and the backoff sleep when the
  attempt is retried.
\<close>

lemma loop_events_unfold:
  "loop_events tr a s w =
     (if \<not> int a < max_retries s + 1 then []
      else
        (case fst (tr a) of
           Response r \<Rightarrow>
             [Request a, ClockSet a (now w + snd (tr a))] @
             (if status_code r \<noteq> 200 \<and> status_code r \<noteq> 429 \<and> status_code r \<noteq> 401 \<and>
                 status_code r \<noteq> 403 \<and> 500 \<le> status_code r \<and> int a < max_retries s \<and>
                 backoff_ok (retry_delay s) a
              then BackoffSleep a (retry_delay s * 2 ^ a) #
                   loop_events tr (Suc a) (s\<lparr>last_request_time := now w + snd (tr a)\<rparr>)
                     (advance (retry_delay s * 2 ^ a)
                        (emit (BackoffSleep a (retry_delay s * 2 ^ a))
                           (emit (ClockSet a (now w + snd (tr a)))
                              (advance (snd (tr a)) (emit (Request a) w)))))
              else [])
         | Timeout \<Rightarrow>
             Request a #
             (if int a < max_retries s \<and> backoff_ok (retry_delay s) a
              then BackoffSleep a (retry_delay s * 2 ^ a) #
                   loop_events tr (Suc a) s
                     (advance (retry_delay s * 2 ^ a)
                        (emit (BackoffSleep a (retry_delay s * 2 ^ a))
                           (advance (snd (tr a)) (emit (Request a) w))))
              else [])
         | ConnectionError \<Rightarrow>
             Request a #
             (if int a < max_retries s \<and> backoff_ok (retry_delay s) a
              then BackoffSleep a (retry_delay s * 2 ^ a) #
                   loop_events tr (Suc a) s
                     (advance (retry_delay s * 2 ^ a)
                        (emit (BackoffSleep a (retry_delay s * 2 ^ a))
                           (advance (snd (tr a)) (emit (Request a) w))))
              else [])
         | RequestException \<Rightarrow> [Request a]))"
  apply (subst loop_events_def)
  apply (subst attempt_loop.simps)
  apply (auto simp: Let_def backoff_sleep loop_events_rec split: outcome.splits option.splits)
  done

text \<open>
  Induction along the loop: a property holds at an attempt if it holds at the next one
  for every state that keeps the retry configuration.
\<close>

lemma loop_induct [case_names step]:
  fixes P :: "nat \<Rightarrow> scraper \<Rightarrow> world \<Rightarrow> bool"
  assumes step: "\<And>a s w.
     (\<And>s' w'. int a < max_retries s + 1 \<Longrightarrow> max_retries s' = max_retries s \<Longrightarrow>
               retry_delay s' = retry_delay s \<Longrightarrow> P (Suc a) s' w') \<Longrightarrow> P a s w"
  shows "P a s w"
proof -
  have "nat (max_retries s + 1 - int a) = n \<Longrightarrow> P a s w" for n
  proof (induction n arbitrary: a s w)
    case 0
    then have stop: "\<not> int a < max_retries s + 1" by simp
    show ?case
    proof (rule step)
      fix s' :: scraper and w' :: world
      assume "int a < max_retries s + 1"
      with stop show "P (Suc a) s' w'" by simp
    qed
  next
    case (Suc n)
    show ?case
    proof (rule step)
      fix s' :: scraper and w' :: world
      assume "int a < max_retries s + 1" "max_retries s' = max_retries s"
      then have "nat (max_retries s' + 1 - int (Suc a)) = n" using Suc.prems by simp
      then show "P (Suc a) s' w'" by (rule Suc.IH)
    qed
  qed
  then show ?thesis by simp
qed

lemma loop_rate_limit_checks: "rate_limit_checks (loop_events tr a s w) = 0"
proof (induction a s w rule: loop_induct)
  case (step a s w)
  show ?case
    by (subst loop_events_unfold) (auto simp: step split: outcome.splits)
qed

lemma loop_clock_sets:
  "clock_sets (loop_events tr a s w) =
     filter (\<lambda>i. is_response (fst (tr i))) (requests (loop_events tr a s w))"
proof (induction a s w rule: loop_induct)
  case (step a s w)
  show ?case
    by (subst (1 2) loop_events_unfold) (auto simp: step is_response_def split: outcome.splits)
qed

lemma loop_clock_follows_request: "clock_follows_request (loop_events tr a s w)"
proof (induction a s w rule: loop_induct)
  case (step a s w)
  show ?case
    by (subst loop_events_unfold) (auto simp: step split: outcome.splits)
qed

lemma loop_last_request_time:
  "last_request_time (fst (snd (attempt_loop tr a s w))) =
     clock_after (last_request_time s) (loop_events tr a s w)"
proof (induction a s w rule: loop_induct)
  case (step a s w)
  show ?case
    by (subst loop_events_unfold, subst attempt_loop.simps)
       (auto simp: step Let_def backoff_sleep split: outcome.splits option.splits)
qed

text \<open>
  The rate limiter puts its check on the trace and at most one sleep after it. Its sleep
  is never negative; it fails only when the wait is beyond \<open>sleep_max\<close>.
\<close>

lemma respect_rate_limit_cases:
  "(\<exists>e. respect_rate_limit s w = (Some e, emit RateLimitCheck w) \<and>
         sleep_max < rate_limit s - (now w - last_request_time s)) \<or>
   (\<exists>w1 pre. respect_rate_limit s w = (None, w1) \<and> events w1 = events w @ RateLimitCheck # pre \<and>
            (pre = [] \<or> (\<exists>d. pre = [RateLimitSleep d])))"
  by (auto simp: respect_rate_limit_def Let_def sleep_def)

lemma make_request_cases:
  "(\<exists>e. make_request tr s w = (Inl e, s, emit RateLimitCheck w) \<and>
         new_events tr s w = [RateLimitCheck] \<and>
         sleep_max < rate_limit s - (now w - last_request_time s)) \<or>
   (\<exists>w1 pre. make_request tr s w = attempt_loop tr 0 s w1 \<and>
            new_events tr s w = RateLimitCheck # pre @ loop_events tr 0 s w1 \<and>
            (pre = [] \<or> (\<exists>d. pre = [RateLimitSleep d])))"
proof -
  consider (fail) e where "respect_rate_limit s w = (Some e, emit RateLimitCheck w)"
      and "sleep_max < rate_limit s - (now w - last_request_time s)"
    | (pass) w1 pre where "respect_rate_limit s w = (None, w1)"
      and "events w1 = events w @ RateLimitCheck # pre"
      and "pre = [] \<or> (\<exists>d. pre = [RateLimitSleep d])"
    using respect_rate_limit_cases [of s w] by blast
  then show ?thesis
  proof cases
    case fail
    have m: "make_request tr s w = (Inl e, s, emit RateLimitCheck w)"
      by (simp add: make_request_def fail(1))
    have "new_events tr s w = [RateLimitCheck]"
      by (simp add: new_events_def m)
    with m fail(2) show ?thesis by blast
  next
    case pass
    have m: "make_request tr s w = attempt_loop tr 0 s w1"
      by (simp add: make_request_def pass(1))
    have "new_events tr s w = RateLimitCheck # pre @ loop_events tr 0 s w1"
      by (simp add: new_events_def m attempt_loop_events pass(2))
    with m pass(3) show ?thesis by blast
  qed
qed

lemma make_request_decomp:
  assumes "rate_limit s - (now w - last_request_time s) \<le> sleep_max"
  shows "\<exists>w1 pre. make_request tr s w = attempt_loop tr 0 s w1 \<and>
            new_events tr s w = RateLimitCheck # pre @ loop_events tr 0 s w1 \<and>
            (pre = [] \<or> (\<exists>d. pre = [RateLimitSleep d]))"
  using make_request_cases [of tr s w] assms by auto

text \<open>The two scripted transports of the claims, from any attempt on.\<close>

lemma loop_5xx_then_200:
  fixes s :: scraper and w :: world
  assumes "max_retries s = int M" and "retry_delay s = D" and "a \<le> M"
    and "\<forall>i. a \<le> i \<and> i < M \<longrightarrow> backoff_ok D i"
    and "\<forall>i. a \<le> i \<and> i < M \<longrightarrow> (\<exists>r. fst (tr i) = Response r \<and> 500 \<le> status_code r)"
    and "fst (tr M) = Response ok" and "status_code ok = 200"
  shows "fst (attempt_loop tr a s w) = Inr ok \<and>
         backoffs (loop_events tr a s w) = map (\<lambda>i. (i, D * 2 ^ i)) [a..<M] \<and>
         requests (loop_events tr a s w) = [a..<Suc M]"
  using assms
proof (induction a s w rule: loop_induct)
  case (step a s w)
  show ?case
  proof (cases "a = M")
    case True
    with step.prems show ?thesis
      by (subst attempt_loop.simps, subst (1 2) loop_events_unfold) (simp add: Let_def)
  next
    case False
    with step.prems have lt: "a < M" by simp
    with step.prems obtain r where r: "fst (tr a) = Response r" "500 \<le> status_code r"
      by auto
    have b: "backoff_ok (retry_delay s) a" using step.prems lt by simp
    let ?s' = "s\<lparr>last_request_time := now w + snd (tr a)\<rparr>"
    let ?w' = "advance (retry_delay s * 2 ^ a)
                 (emit (BackoffSleep a (retry_delay s * 2 ^ a))
                    (emit (ClockSet a (now w + snd (tr a)))
                       (advance (snd (tr a)) (emit (Request a) w))))"
    have IH: "fst (attempt_loop tr (Suc a) ?s' ?w') = Inr ok \<and>
         backoffs (loop_events tr (Suc a) ?s' ?w') = map (\<lambda>i. (i, D * 2 ^ i)) [Suc a..<M] \<and>
         requests (loop_events tr (Suc a) ?s' ?w') = [Suc a..<Suc M]"
      using step.prems lt by (intro step.IH) auto
    have res: "attempt_loop tr a s w = attempt_loop tr (Suc a) ?s' ?w'"
      using step.prems(1) lt r b
      by (subst attempt_loop.simps) (simp add: Let_def backoff_sleep)
    have ev: "loop_events tr a s w =
                [Request a, ClockSet a (now w + snd (tr a))] @
                BackoffSleep a (retry_delay s * 2 ^ a) # loop_events tr (Suc a) ?s' ?w'"
      using step.prems(1) lt r b
      by (subst loop_events_unfold) simp
    show ?thesis
      using IH lt step.prems(2) by (simp add: res ev upt_conv_Cons)
  qed
qed

lemma loop_all_timeouts:
  fixes s :: scraper and w :: world
  assumes "max_retries s = int M" and "retry_delay s = D" and "a \<le> M"
    and "\<forall>i. a \<le> i \<and> i < M \<longrightarrow> backoff_ok D i"
    and "\<forall>i. fst (tr i) = Timeout"
  shows "fst (attempt_loop tr a s w) = Inl (NetworkError None) \<and>
         requests (loop_events tr a s w) = [a..<Suc M]"
  using assms
proof (induction a s w rule: loop_induct)
  case (step a s w)
  have t: "fst (tr a) = Timeout" using step.prems by simp
  show ?case
  proof (cases "a = M")
    case True
    with step.prems(1) t show ?thesis
      by (subst attempt_loop.simps, subst loop_events_unfold) (simp add: Let_def)
  next
    case False
    with step.prems have lt: "a < M" by simp
    have b: "backoff_ok (retry_delay s) a" using step.prems lt by simp
    let ?w' = "advance (retry_delay s * 2 ^ a)
                 (emit (BackoffSleep a (retry_delay s * 2 ^ a))
                    (advance (snd (tr a)) (emit (Request a) w)))"
    have IH: "fst (attempt_loop tr (Suc a) s ?w') = Inl (NetworkError None) \<and>
              requests (loop_events tr (Suc a) s ?w') = [Suc a..<Suc M]"
      using step.prems lt by (intro step.IH) auto
    have res: "attempt_loop tr a s w = attempt_loop tr (Suc a) s ?w'"
      using step.prems(1) lt t b
      by (subst attempt_loop.simps) (simp add: Let_def backoff_sleep)
    have ev: "loop_events tr a s w =
                Request a # BackoffSleep a (retry_delay s * 2 ^ a) # loop_events tr (Suc a) s ?w'"
      using step.prems(1) lt t b
      by (subst loop_events_unfold) simp
    show ?thesis
      using IH lt by (simp add: res ev upt_conv_Cons)
  qed
qed

text \<open>The loop equation at the first five attempts, for evaluating concrete runs.\<close>

lemmas attempt_loop_numeral =
  attempt_loop.simps [of _ 0] attempt_loop.simps [of _ "Suc 0"]
  attempt_loop.simps [of _ "Suc (Suc 0)"] attempt_loop.simps [of _ "Suc (Suc (Suc 0))"]
  attempt_loop.simps [of _ "Suc (Suc (Suc (Suc 0)))"]

section \<open>Properties of \<^verbatim>\<open>_make_request\<close>\<close>

text \<open>The first backoffs of a one-second base delay are within the range of the sleep.\<close>

lemma sleep_max_bounds: "16 \<le> sleep_max" "sleep_max < 10000000000"
  by (simp_all add: sleep_max_def)

lemma backoff_small:
  assumes "a < 4"
  shows "(1::real) * 2 ^ a \<le> sleep_max"
proof -
  have "(2::real) ^ a \<le> 2 ^ 4" using assms by (intro power_increasing) simp_all
  with sleep_max_bounds(1) show ?thesis by simp
qed

text \<open>
  The two other ways in which a sleep of \<^verbatim>\<open>_make_request\<close> overflows: the product
  \<^verbatim>\<open>retry_delay * 2**attempt\<close> from attempt 1024 on, whatever the delay, and the wait
  of the rate limiter, here with a rate limit of \<open>1e11\<close> seconds, which ends the call
  before any request.
\<close>

lemma backoff_sleep_attempt_1024: "backoff_sleep delay 1024 w = Inl OverflowError"
  by (simp add: backoff_sleep_def)

lemma make_request_rate_limit_overflow:
  "fst (make_request tr (demo_scraper\<lparr>rate_limit := 100000000000\<rparr>) demo_world) =
     Inl OverflowError \<and>
   new_events tr (demo_scraper\<lparr>rate_limit := 100000000000\<rparr>) demo_world = [RateLimitCheck]"
  using sleep_max_bounds(2)
  by (simp add: new_events_def make_request_def respect_rate_limit_def demo_scraper_def
        demo_world_def Let_def sleep_def)

text \<open>
  Claim C1 as stated fails for a large base delay: with one retry and a base delay of
  \<open>1e10\<close> seconds the transport answers 500 and then would answer 200, but the first
  backoff is beyond what \<^verbatim>\<open>time.sleep\<close> accepts, so the call ends in
  \<^verbatim>\<open>OverflowError\<close> after one request.
\<close>

theorem make_request_retries_counterexample:
  "fst (make_request (transport_500_then_200 1)
          (demo_scraper\<lparr>max_retries := 1, retry_delay := 10000000000\<rparr>) demo_world) =
     Inl OverflowError \<and>
   requests (new_events (transport_500_then_200 1)
          (demo_scraper\<lparr>max_retries := 1, retry_delay := 10000000000\<rparr>) demo_world) = [0]"
  using sleep_max_bounds(2)
  by (simp add: new_events_def make_request_def respect_rate_limit_def attempt_loop_numeral
        demo_scraper_def demo_world_def transport_500_then_200_def Let_def sleep_def
        backoff_sleep_def)

text \<open>
  Claim C1, amended. With \<open>max_retries\<close> between 1 and 1024, a positive base delay whose
  backoffs \<open>retry_delay * 2 ^ a\<close> for \<open>a < max_retries\<close> are all within \<open>sleep_max\<close>, and a
  wait of the rate limiter within \<open>sleep_max\<close>: when the transport answers 500 on each
  of the first \<open>max_retries\<close> attempts and 200 on the next, \<^verbatim>\<open>_make_request\<close> returns
  that response after \<open>max_retries + 1\<close> requests, the backoff sleep before retry number
  \<open>a\<close> lasts \<open>retry_delay * 2 ^ a\<close>, and each backoff sleep is twice the one before,
  hence strictly longer.
\<close>

theorem make_request_retries_then_succeeds:
  fixes s :: scraper and w :: world
  assumes "1 \<le> max_retries s" and "max_retries s \<le> 1024" and "0 < retry_delay s"
    and "\<forall>a. int a < max_retries s \<longrightarrow> retry_delay s * 2 ^ a \<le> sleep_max"
    and "rate_limit s - (now w - last_request_time s) \<le> sleep_max"
    and "\<forall>a. int a < max_retries s \<longrightarrow> (\<exists>r. fst (tr a) = Response r \<and> status_code r = 500)"
    and "fst (tr (nat (max_retries s))) = Response ok" and "status_code ok = 200"
  shows "fst (make_request tr s w) = Inr ok \<and>
         requests (new_events tr s w) = [0..<Suc (nat (max_retries s))] \<and>
         backoffs (new_events tr s w) =
           map (\<lambda>a. (a, retry_delay s * 2 ^ a)) [0..<nat (max_retries s)] \<and>
         (\<forall>a. Suc a < nat (max_retries s) \<longrightarrow>
            snd (backoffs (new_events tr s w) ! Suc a) = 2 * snd (backoffs (new_events tr s w) ! a) \<and>
            snd (backoffs (new_events tr s w) ! a) < snd (backoffs (new_events tr s w) ! Suc a))"
proof -
  define M where "M = nat (max_retries s)"
  have M: "max_retries s = int M" using assms(1) by (simp add: M_def)
  obtain w1 pre where m: "make_request tr s w = attempt_loop tr 0 s w1"
    and n: "new_events tr s w = RateLimitCheck # pre @ loop_events tr 0 s w1"
    and p: "pre = [] \<or> (\<exists>d. pre = [RateLimitSleep d])"
    using make_request_decomp [OF assms(5)] by blast
  have bk: "\<forall>i. 0 \<le> i \<and> i < M \<longrightarrow> backoff_ok (retry_delay s) i"
    using assms(2,3,4) M by (auto simp: backoff_ok_def)
  have srv: "\<forall>i. 0 \<le> i \<and> i < M \<longrightarrow> (\<exists>r. fst (tr i) = Response r \<and> 500 \<le> status_code r)"
    using assms(6) M by auto
  have ok: "fst (tr M) = Response ok" using assms(7) by (simp add: M_def)
  have L: "fst (attempt_loop tr 0 s w1) = Inr ok \<and>
           backoffs (loop_events tr 0 s w1) = map (\<lambda>i. (i, retry_delay s * 2 ^ i)) [0..<M] \<and>
           requests (loop_events tr 0 s w1) = [0..<Suc M]"
    by (rule loop_5xx_then_200 [OF M refl _ bk srv ok assms(8)]) simp
  have b: "backoffs (new_events tr s w) = map (\<lambda>a. (a, retry_delay s * 2 ^ a)) [0..<M]"
    using L p by (auto simp: n)
  have r: "requests (new_events tr s w) = [0..<Suc M]"
    using L p by (auto simp: n)
  have dbl: "\<forall>a. Suc a < M \<longrightarrow>
            snd (backoffs (new_events tr s w) ! Suc a) = 2 * snd (backoffs (new_events tr s w) ! a) \<and>
            snd (backoffs (new_events tr s w) ! a) < snd (backoffs (new_events tr s w) ! Suc a)"
    using assms(3) by (simp add: b)
  show ?thesis
    using L b r dbl unfolding m M_def by simp
qed

theorem make_request_retries_then_succeeds_witness:
  "fst (make_request (transport_500_then_200 2) (demo_scraper\<lparr>max_retries := 2\<rparr>) demo_world) =
     Inr \<lparr>status_code = 200, retry_after_header = None, body = ''ok''\<rparr> \<and>
   backoffs (new_events (transport_500_then_200 2) (demo_scraper\<lparr>max_retries := 2\<rparr>) demo_world) =
     [(0, 1), (1, 2)]"
proof -
  let ?s = "demo_scraper\<lparr>max_retries := 2\<rparr>"
  let ?ok = "\<lparr>status_code = 200, retry_after_header = None, body = ''ok''\<rparr>"
  have h1: "1 \<le> max_retries ?s" and h2: "max_retries ?s \<le> 1024" and h3: "0 < retry_delay ?s"
    by (simp_all add: demo_scraper_def)
  have h4: "\<forall>a. int a < max_retries ?s \<longrightarrow> retry_delay ?s * 2 ^ a \<le> sleep_max"
    using backoff_small by (simp add: demo_scraper_def)
  have h5: "rate_limit ?s - (now demo_world - last_request_time ?s) \<le> sleep_max"
    using sleep_max_bounds(1) by (simp add: demo_scraper_def demo_world_def)
  have h6: "\<forall>a. int a < max_retries ?s \<longrightarrow>
              (\<exists>r. fst (transport_500_then_200 2 a) = Response r \<and> status_code r = 500)"
    by (simp add: demo_scraper_def transport_500_then_200_def)
  have h7: "fst (transport_500_then_200 2 (nat (max_retries ?s))) = Response ?ok"
    by (simp add: demo_scraper_def transport_500_then_200_def)
  have h8: "status_code ?ok = 200" by simp
  have u: "map (\<lambda>a. (a, retry_delay ?s * 2 ^ a)) [0..<nat (max_retries ?s)] = [(0, 1), (1, 2)]"
    by (simp add: demo_scraper_def eval_nat_numeral upt_rec)
  from make_request_retries_then_succeeds [OF h1 h2 h3 h4 h5 h6 h7 h8]
  have "fst (make_request (transport_500_then_200 2) ?s demo_world) = Inr ?ok \<and>
        backoffs (new_events (transport_500_then_200 2) ?s demo_world) =
          map (\<lambda>a. (a, retry_delay ?s * 2 ^ a)) [0..<nat (max_retries ?s)]"
    by blast
  then show ?thesis unfolding u .
qed

text \<open>
  Claim C2 as stated fails for a negative base delay: \<^verbatim>\<open>time.sleep\<close> rejects the
  first backoff, so the call ends in \<^verbatim>\<open>ValueError\<close> after a single request.
\<close>

theorem make_request_timeouts_counterexample:
  "fst (make_request transport_timeout (demo_scraper\<lparr>retry_delay := - 1\<rparr>) demo_world) =
     Inl (ValueError ''sleep length must be non-negative'') \<and>
   requests (new_events transport_timeout (demo_scraper\<lparr>retry_delay := - 1\<rparr>) demo_world) = [0]"
  by (simp add: new_events_def make_request_def respect_rate_limit_def attempt_loop_numeral
        demo_scraper_def demo_world_def transport_timeout_def Let_def sleep_def
        backoff_sleep_def)

text \<open>
  Claim C2, amended. With \<open>max_retries\<close> between 0 and 1024, a base delay that is not
  negative and whose backoffs \<open>retry_delay * 2 ^ a\<close> for \<open>a < max_retries\<close> are all within
  \<open>sleep_max\<close>, and a wait of the rate limiter within \<open>sleep_max\<close>: when every attempt
  times out, \<^verbatim>\<open>_make_request\<close> raises \<open>NetworkError\<close> after exactly
  \<open>max_retries + 1\<close> requests.
\<close>

theorem make_request_timeouts_exhaust:
  fixes s :: scraper and w :: world
  assumes "0 \<le> max_retries s" and "max_retries s \<le> 1024" and "0 \<le> retry_delay s"
    and "\<forall>a. int a < max_retries s \<longrightarrow> retry_delay s * 2 ^ a \<le> sleep_max"
    and "rate_limit s - (now w - last_request_time s) \<le> sleep_max"
    and "\<forall>a. fst (tr a) = Timeout"
  shows "fst (make_request tr s w) = Inl (NetworkError None) \<and>
         requests (new_events tr s w) = [0..<nat (max_retries s) + 1]"
proof -
  have M: "max_retries s = int (nat (max_retries s))" using assms(1) by simp
  obtain w1 pre where m: "make_request tr s w = attempt_loop tr 0 s w1"
    and n: "new_events tr s w = RateLimitCheck # pre @ loop_events tr 0 s w1"
    and p: "pre = [] \<or> (\<exists>d. pre = [RateLimitSleep d])"
    using make_request_decomp [OF assms(5)] by blast
  have bk: "\<forall>i. 0 \<le> i \<and> i < nat (max_retries s) \<longrightarrow> backoff_ok (retry_delay s) i"
    using assms(2,3,4) by (auto simp: backoff_ok_def)
  have L: "fst (attempt_loop tr 0 s w1) = Inl (NetworkError None) \<and>
           requests (loop_events tr 0 s w1) = [0..<Suc (nat (max_retries s))]"
    by (rule loop_all_timeouts [OF M refl _ bk assms(6)]) simp
  show ?thesis using L p by (auto simp: m n)
qed

theorem make_request_timeouts_exhaust_witness:
  "fst (make_request transport_timeout demo_scraper demo_world) = Inl (NetworkError None) \<and>
   requests (new_events transport_timeout demo_scraper demo_world) = [0, 1, 2, 3]"
proof -
  have h1: "0 \<le> max_retries demo_scraper" and h2: "max_retries demo_scraper \<le> 1024"
    and h3: "0 \<le> retry_delay demo_scraper"
    by (simp_all add: demo_scraper_def)
  have h4: "\<forall>a. int a < max_retries demo_scraper \<longrightarrow> retry_delay demo_scraper * 2 ^ a \<le> sleep_max"
    using backoff_small by (simp add: demo_scraper_def)
  have h5: "rate_limit demo_scraper - (now demo_world - last_request_time demo_scraper) \<le> sleep_max"
    using sleep_max_bounds(1) by (simp add: demo_scraper_def demo_world_def)
  have h6: "\<forall>a. fst (transport_timeout a) = Timeout"
    by (simp add: transport_timeout_def)
  have u: "[0..<nat (max_retries demo_scraper) + 1] = [0, 1, 2, 3]"
    by (simp add: demo_scraper_def eval_nat_numeral upt_rec)
  from make_request_timeouts_exhaust [OF h1 h2 h3 h4 h5 h6]
  show ?thesis unfolding u .
qed

text \<open>
  A 429 on the first attempt ends the call on that attempt: with \<open>RateLimitError\<close> when
  the header is absent or an integer, with \<^verbatim>\<open>ValueError\<close> otherwise.
\<close>

lemma make_request_429_first_attempt:
  fixes s :: scraper and w :: world
  assumes "0 \<le> max_retries s" and "rate_limit s - (now w - last_request_time s) \<le> sleep_max"
    and "fst (tr 0) = Response r" and "status_code r = 429"
  shows "fst (make_request tr s w) =
           (case retry_after_header r of
              None \<Rightarrow> Inl (RateLimitError 60)
            | Some h \<Rightarrow>
                (case py_int h of
                   Some n \<Rightarrow> Inl (RateLimitError n)
                 | None \<Rightarrow> Inl (ValueError ''invalid literal for int() with base 10''))) \<and>
         requests (new_events tr s w) = [0]"
proof -
  obtain w1 pre where m: "make_request tr s w = attempt_loop tr 0 s w1"
    and n: "new_events tr s w = RateLimitCheck # pre @ loop_events tr 0 s w1"
    and p: "pre = [] \<or> (\<exists>d. pre = [RateLimitSleep d])"
    using make_request_decomp [OF assms(2)] by blast
  have a: "fst (attempt_loop tr 0 s w1) =
           (case retry_after_header r of
              None \<Rightarrow> Inl (RateLimitError 60)
            | Some h \<Rightarrow>
                (case py_int h of
                   Some n \<Rightarrow> Inl (RateLimitError n)
                 | None \<Rightarrow> Inl (ValueError ''invalid literal for int() with base 10'')))"
    using assms by (subst attempt_loop.simps) (simp add: Let_def split: option.splits)
  have e: "requests (loop_events tr 0 s w1) = [0]"
    using assms by (subst loop_events_unfold) simp
  from p a e show ?thesis by (auto simp: m n)
qed

text \<open>
  Claim C3 at the failing input. On a 429 response with \<^verbatim>\<open>Retry-After: 60\<close> the call
  raises \<open>RateLimitError\<close> with \<open>retry_after = 60\<close> after one request. On a 429 response
  whose \<^verbatim>\<open>Retry-After\<close> is an HTTP-date, \<^verbatim>\<open>int\<close> rejects the header and the call
  raises \<^verbatim>\<open>ValueError\<close>, not \<open>RateLimitError\<close> with the default 60.
\<close>

theorem make_request_429_unparseable_retry_after:
  "fst (make_request transport_429 demo_scraper demo_world) = Inl (RateLimitError 60) \<and>
   requests (new_events transport_429 demo_scraper demo_world) = [0] \<and>
   py_int ''Wed, 21 Oct 2015 07:28:00 GMT'' = None \<and>
   fst (make_request transport_429_date demo_scraper demo_world) =
     Inl (ValueError ''invalid literal for int() with base 10'')"
  by (simp add: new_events_def make_request_def respect_rate_limit_def attempt_loop_numeral
        demo_scraper_def demo_world_def transport_429_def transport_429_date_def Let_def
        py_int_def number_ok_def strip_def is_space_def is_digit_def digits_value_def
        digit_val_def)

text \<open>
  Claim C4 as stated fails. With a 500 then a 200, the trace has two requests but a single
  rate-limit check, and \<^verbatim>\<open>_last_request_time\<close> is set after the 500 that is retried.
  With a timeout and no retry left, the call fails terminally and
  \<^verbatim>\<open>_last_request_time\<close> keeps its old value.
\<close>

theorem make_request_clock_counterexample:
  "new_events (transport_500_then_200 1) demo_scraper demo_world =
     [RateLimitCheck, Request 0, ClockSet 0 101, BackoffSleep 0 1, Request 1, ClockSet 1 103] \<and>
   new_events transport_timeout (demo_scraper\<lparr>max_retries := 0\<rparr>) demo_world =
     [RateLimitCheck, Request 0] \<and>
   fst (make_request transport_timeout (demo_scraper\<lparr>max_retries := 0\<rparr>) demo_world) =
     Inl (NetworkError None) \<and>
   last_request_time
     (fst (snd (make_request transport_timeout (demo_scraper\<lparr>max_retries := 0\<rparr>) demo_world))) =
     last_request_time demo_scraper"
  using sleep_max_bounds(1)
  by (simp add: new_events_def make_request_def respect_rate_limit_def attempt_loop_numeral
        demo_scraper_def demo_world_def transport_timeout_def transport_500_then_200_def
        Let_def sleep_def backoff_sleep_def emit_def advance_def)

text \<open>
  Claim C4, amended. Every call of \<^verbatim>\<open>_make_request\<close> starts with the rate-limit check
  and makes it exactly once, whatever the number of attempts. \<^verbatim>\<open>_last_request_time\<close>
  is set directly after the request of an attempt, never before it, and exactly on the
  attempts whose request returned an HTTP response, whatever its status; the value of
  \<^verbatim>\<open>_last_request_time\<close> after the call is the last value so set, or the old one.
\<close>

theorem make_request_rate_limit_and_clock:
  fixes s :: scraper and w :: world
  shows "take 1 (new_events tr s w) = [RateLimitCheck] \<and>
   rate_limit_checks (new_events tr s w) = 1 \<and>
   clock_sets (new_events tr s w) =
     filter (\<lambda>a. is_response (fst (tr a))) (requests (new_events tr s w)) \<and>
   clock_follows_request (new_events tr s w) \<and>
   last_request_time (fst (snd (make_request tr s w))) =
     clock_after (last_request_time s) (new_events tr s w)"
proof -
  consider (fail) e where "make_request tr s w = (Inl e, s, emit RateLimitCheck w)"
      and "new_events tr s w = [RateLimitCheck]"
    | (pass) w1 pre where "make_request tr s w = attempt_loop tr 0 s w1"
      and "new_events tr s w = RateLimitCheck # pre @ loop_events tr 0 s w1"
      and "pre = [] \<or> (\<exists>d. pre = [RateLimitSleep d])"
    using make_request_cases [of tr s w] by blast
  then show ?thesis
  proof cases
    case fail
    then show ?thesis by simp
  next
    case pass
    from pass(3) show ?thesis
      by (auto simp: pass(1,2) loop_rate_limit_checks loop_clock_sets [symmetric]
            loop_clock_follows_request loop_last_request_time)
  qed
qed

section \<open>Properties of \<^verbatim>\<open>search_cases\<close>\<close>

lemma parse_results_keeps_successes:
  "parse_results extract items =
     concat (map (\<lambda>i. case extract i of Inr (Some c) \<Rightarrow> [c] | _ \<Rightarrow> []) items)"
  by (induction items) (auto split: sum.splits option.splits)

lemma make_request_transport_429:
  "make_request transport_429 demo_scraper demo_world =
     (Inl (RateLimitError 60), demo_scraper\<lparr>last_request_time := 101\<rparr>,
      \<lparr>now = 101, events = [RateLimitCheck, Request 0, ClockSet 0 101]\<rparr>)"
  by (simp add: make_request_def respect_rate_limit_def attempt_loop.simps [of _ 0]
        demo_scraper_def demo_world_def transport_429_def emit_def advance_def Let_def
        py_int_def number_ok_def strip_def is_space_def is_digit_def digits_value_def digit_val_def)

text \<open>
  Claim C5 as stated fails: when the request ends in \<open>RateLimitError\<close>, the BAILII
  search raises \<open>ParsingError\<close> instead.
\<close>
theorem search_cases_propagation_counterexample:
  "fst (make_request transport_429 demo_scraper demo_world) = Inl (RateLimitError 60) \<and>
   fst (bailii_search_cases parse_no_date lenient_builder demo_links demo_extract
          transport_429 demo_scraper demo_world DateNone DateNone (LimitInt 100)) =
     Inl ParsingError"
  by (simp add: bailii_search_cases_def make_request_transport_429
        validate_search_params_def truthy_def)

text \<open>
  Claim C5, amended. A record whose extraction raises or returns \<^verbatim>\<open>None\<close> is skipped
  and the others are returned in order. An error of the parameter validation propagates
  unchanged in both adapters. In the CourtListener adapter an error of the request
  propagates unchanged and a JSON decoding failure is raised as \<open>ParsingError\<close>; in the
  BAILII adapter every error of the request or of parsing the page is raised as
  \<open>ParsingError\<close>.
\<close>
theorem search_cases_error_policy:
  "parse_results extract items =
     concat (map (\<lambda>i. case extract i of Inr (Some c) \<Rightarrow> [c] | _ \<Rightarrow> []) items) \<and>
   (validate_search_params p start end lmt = Inl e \<longrightarrow>
      fst (courtlistener_search_cases p decode extract tr s w start end lmt) = Inl e \<and>
      fst (bailii_search_cases p bs links extract' tr s w start end lmt) = Inl e) \<and>
   (validate_search_params p start end lmt = Inr ps \<longrightarrow>
      (fst (make_request tr s w) = Inl e \<longrightarrow>
         fst (courtlistener_search_cases p decode extract tr s w start end lmt) = Inl e \<and>
         fst (bailii_search_cases p bs links extract' tr s w start end lmt) = Inl ParsingError) \<and>
      (fst (make_request tr s w) = Inr resp \<longrightarrow>
         (decode (body resp) = None \<longrightarrow>
            fst (courtlistener_search_cases p decode extract tr s w start end lmt) =
              Inl ParsingError) \<and>
         (decode (body resp) = Some (JsonDict (Some items)) \<longrightarrow>
            fst (courtlistener_search_cases p decode extract tr s w start end lmt) =
              Inr (parse_results extract items)) \<and>
         (parse_html bs (Some (body resp)) = Inl e \<longrightarrow>
            fst (bailii_search_cases p bs links extract' tr s w start end lmt) =
              Inl ParsingError) \<and>
         (parse_html bs (Some (body resp)) = Inr soup \<longrightarrow>
            fst (bailii_search_cases p bs links extract' tr s w start end lmt) =
              Inr (parse_results extract'
                     (take (nat (case limit ps of None \<Rightarrow> 100 | Some n \<Rightarrow> n)) (links soup))))))"
  by (auto simp: parse_results_keeps_successes courtlistener_search_cases_def
        bailii_search_cases_def split: prod.splits sum.splits option.splits json.splits)

theorem search_cases_error_policy_witness:
  "fst (courtlistener_search_cases parse_no_date (\<lambda>b. None :: nat json option) demo_extract
          transport_429 demo_scraper demo_world DateNone DateNone (LimitInt 100)) =
     Inl (RateLimitError 60) \<and>
   fst (bailii_search_cases parse_no_date lenient_builder demo_links demo_extract
          transport_429 demo_scraper demo_world DateNone DateNone (LimitInt 100)) =
     Inl ParsingError"
proof -
  have v: "validate_search_params parse_no_date DateNone DateNone (LimitInt 100) =
             Inr \<lparr>start_date = None, end_date = None, limit = Some 100\<rparr>"
    by (simp add: validate_search_params_def truthy_def)
  have r: "fst (make_request transport_429 demo_scraper demo_world) = Inl (RateLimitError 60)"
    by (simp add: make_request_transport_429)
  from search_cases_error_policy
         [of demo_extract "[]" parse_no_date DateNone DateNone "LimitInt 100" "RateLimitError 60"
             "\<lambda>b. None" transport_429 demo_scraper demo_world lenient_builder demo_links demo_extract]
       v r
  show ?thesis by blast
qed

section \<open>Properties of the parameter validation\<close>

text \<open>
  Claim C6 as stated fails: a date string that parses to a naive value and one that
  parses to a value in UTC are both parseable, but comparing the two raises
  \<^verbatim>\<open>TypeError\<close>, so the call neither raises \<^verbatim>\<open>ValueError\<close> nor returns the dates.
\<close>

theorem validate_search_params_date_order_counterexample:
  "demo_parse_date ''2023-12-31'' = Inr \<lparr>wall = 31449600000000, tzinfo = None, tz_offset = None\<rparr> \<and>
   demo_parse_date ''2023-06-01T00:00:00Z'' =
     Inr \<lparr>wall = 13046400000000, tzinfo = Some 0, tz_offset = Some 0\<rparr> \<and>
   validate_search_params demo_parse_date (DateStr ''2023-12-31'')
       (DateStr ''2023-06-01T00:00:00Z'') LimitNone = Inl TypeError"
  by (simp add: validate_search_params_def truthy_def validate_date_def date_parser_parse_def
        demo_parse_date_def dt_gt_def utcoffset_def)

text \<open>
  Claim C6, amended. For two parseable date inputs, a \<^verbatim>\<open>datetime\<close> or a non-empty
  string that the parser reads, \<^verbatim>\<open>validate_search_params\<close> follows the order of the
  standard library on the two resolved values: when the start is greater than the end it
  raises \<^verbatim>\<open>ValueError\<close> whatever the limit; when it is not, it returns both resolved
  dates (for an absent or a positive limit); and when the two cannot be compared, one
  being naive and the other aware, it raises \<^verbatim>\<open>TypeError\<close>. That order compares the
  wall-clock fields of two values with the same \<^verbatim>\<open>tzinfo\<close> object or equal offsets,
  and the UTC instants otherwise.
\<close>

theorem validate_search_params_date_order:
  assumes "parses_as p start a" and "parses_as p end b"
  shows "(dt_gt a b = Some True \<longrightarrow>
            validate_search_params p start end lmt =
              Inl (ValueError ''Start date must be before end date'')) \<and>
         (dt_gt a b = Some False \<longrightarrow>
            validate_search_params p start end LimitNone =
              Inr \<lparr>start_date = Some a, end_date = Some b, limit = None\<rparr> \<and>
            (\<forall>n. 0 < n \<longrightarrow>
               validate_search_params p start end (LimitInt n) =
                 Inr \<lparr>start_date = Some a, end_date = Some b, limit = Some (min n 1000)\<rparr>)) \<and>
         (dt_gt a b = None \<longrightarrow> validate_search_params p start end lmt = Inl TypeError) \<and>
         (tzinfo a = tzinfo b \<longrightarrow> dt_gt a b = Some (wall b < wall a)) \<and>
         (tzinfo a = None \<and> tzinfo b \<noteq> None \<and> tz_offset b \<noteq> None \<longrightarrow> dt_gt a b = None)"
proof -
  have vs: "validate_date p start = Inr (Some a)" and ts: "truthy start"
    using assms(1)
    by (auto simp: parses_as_def validate_date_def truthy_def date_parser_parse_def
             split: date_arg.splits)
  have ve: "validate_date p end = Inr (Some b)" and te: "truthy end"
    using assms(2)
    by (auto simp: parses_as_def validate_date_def truthy_def date_parser_parse_def
             split: date_arg.splits)
  have order: "(tzinfo a = tzinfo b \<longrightarrow> dt_gt a b = Some (wall b < wall a)) \<and>
         (tzinfo a = None \<and> tzinfo b \<noteq> None \<and> tz_offset b \<noteq> None \<longrightarrow> dt_gt a b = None)"
    by (auto simp: dt_gt_def utcoffset_def split: option.splits)
  have "(dt_gt a b = Some True \<longrightarrow>
            validate_search_params p start end lmt =
              Inl (ValueError ''Start date must be before end date'')) \<and>
         (dt_gt a b = Some False \<longrightarrow>
            validate_search_params p start end LimitNone =
              Inr \<lparr>start_date = Some a, end_date = Some b, limit = None\<rparr> \<and>
            (\<forall>n. 0 < n \<longrightarrow>
               validate_search_params p start end (LimitInt n) =
                 Inr \<lparr>start_date = Some a, end_date = Some b, limit = Some (min n 1000)\<rparr>)) \<and>
         (dt_gt a b = None \<longrightarrow> validate_search_params p start end lmt = Inl TypeError)"
    using vs ve ts te by (simp add: validate_search_params_def)
  with order show ?thesis by blast
qed

theorem validate_search_params_date_order_witness:
  "validate_search_params demo_parse_date (DateStr ''2023-12-31'') (DateStr ''2023-01-01'')
       (LimitInt 100) =
     Inl (ValueError ''Start date must be before end date'') \<and>
   validate_search_params demo_parse_date (DateStr ''2023-01-01'') (DateStr ''2023-12-31'')
       (LimitInt 100) =
     Inr \<lparr>start_date = Some \<lparr>wall = 0, tzinfo = None, tz_offset = None\<rparr>,
          end_date = Some \<lparr>wall = 31449600000000, tzinfo = None, tz_offset = None\<rparr>,
          limit = Some 100\<rparr>"
proof -
  let ?jan = "\<lparr>wall = 0, tzinfo = None, tz_offset = None\<rparr>"
  let ?dec = "\<lparr>wall = 31449600000000, tzinfo = None, tz_offset = None\<rparr>"
  have pj: "parses_as demo_parse_date (DateStr ''2023-01-01'') ?jan"
    and pd: "parses_as demo_parse_date (DateStr ''2023-12-31'') ?dec"
    by (simp_all add: parses_as_def demo_parse_date_def)
  have g: "dt_gt ?dec ?jan = Some True" and l: "dt_gt ?jan ?dec = Some False"
    by (simp_all add: dt_gt_def)
  from validate_search_params_date_order [OF pd pj, of "LimitInt 100"] g
  have A: "validate_search_params demo_parse_date (DateStr ''2023-12-31'') (DateStr ''2023-01-01'')
             (LimitInt 100) = Inl (ValueError ''Start date must be before end date'')"
    by blast
  from validate_search_params_date_order [OF pj pd, of LimitNone] l
  have "\<forall>n. 0 < n \<longrightarrow>
          validate_search_params demo_parse_date (DateStr ''2023-01-01'') (DateStr ''2023-12-31'')
            (LimitInt n) =
          Inr \<lparr>start_date = Some ?jan, end_date = Some ?dec, limit = Some (min n 1000)\<rparr>"
    by blast
  then have B: "validate_search_params demo_parse_date (DateStr ''2023-01-01'')
             (DateStr ''2023-12-31'') (LimitInt 100) =
          Inr \<lparr>start_date = Some ?jan, end_date = Some ?dec, limit = Some (min 100 1000)\<rparr>"
    by simp
  from A B show ?thesis by simp
qed

text \<open>
  Claim C7. Once the date arguments pass, a limit that is an integer \<open>\<le> 0\<close> or not an
  integer raises \<^verbatim>\<open>ValueError\<close>, and a positive integer limit is returned as
  \<open>min limit 1000\<close>: above 1000 the returned limit is 1000 and nothing is raised.
\<close>
theorem validate_search_params_limit:
  assumes "validate_search_params p start end LimitNone = Inr ps"
  shows "(n \<le> 0 \<longrightarrow> validate_search_params p start end (LimitInt n) =
                      Inl (ValueError ''Limit must be a positive integer'')) \<and>
         validate_search_params p start end LimitOther =
           Inl (ValueError ''Limit must be a positive integer'') \<and>
         (0 < n \<longrightarrow> validate_search_params p start end (LimitInt n) =
                      Inr (ps\<lparr>limit := Some (min n 1000)\<rparr>)) \<and>
         (1000 < n \<longrightarrow> validate_search_params p start end (LimitInt n) =
                      Inr (ps\<lparr>limit := Some 1000\<rparr>))"
  using assms
  by (auto simp: validate_search_params_def split: sum.splits if_splits)

theorem validate_search_params_limit_witness:
  "validate_search_params parse_no_date DateNone DateNone (LimitInt 0) =
     Inl (ValueError ''Limit must be a positive integer'') \<and>
   validate_search_params parse_no_date DateNone DateNone (LimitInt 5000) =
     Inr \<lparr>start_date = None, end_date = None, limit = Some 1000\<rparr>"
proof -
  let ?p = parse_no_date
  have h: "validate_search_params ?p DateNone DateNone LimitNone =
             Inr \<lparr>start_date = None, end_date = None, limit = None\<rparr>"
    by (simp add: validate_search_params_def truthy_def)
  from validate_search_params_limit [OF h, of 0]
  have A: "validate_search_params ?p DateNone DateNone (LimitInt 0) =
     Inl (ValueError ''Limit must be a positive integer'')" by simp
  from validate_search_params_limit [OF h, of 5000]
  have B: "validate_search_params ?p DateNone DateNone (LimitInt 5000) =
     Inr (\<lparr>start_date = None, end_date = None, limit = None\<rparr>\<lparr>limit := Some 1000\<rparr>)" by simp
  from A B show ?thesis by simp
qed

section \<open>Properties of the document parser\<close>

text \<open>
  Claim C8 as stated fails: \<^verbatim>\<open>_parse_html\<close> has no check for empty input, so with a
  builder that accepts the empty string the result is a tree, not \<open>ParsingError\<close>.
\<close>
theorem parse_html_empty_counterexample:
  "parse_html lenient_builder (Some []) = Inr []"
  by (simp add: parse_html_def BeautifulSoup_def lenient_builder_def)

text \<open>
  Claim C8, amended. \<^verbatim>\<open>_parse_html\<close> raises only \<open>ParsingError\<close>; it does so on
  \<^verbatim>\<open>None\<close>, and on a string exactly when both the \<^verbatim>\<open>lxml\<close> builder and the
  \<^verbatim>\<open>html.parser\<close> builder raise. Otherwise it returns the tree of the first builder
  that accepts the string; the empty string is handled like any other string.
\<close>
theorem parse_html_fallback:
  "parse_html bs None = Inl ParsingError \<and>
   (parse_html bs (Some m) = Inl ParsingError \<longleftrightarrow> bs Lxml m = None \<and> bs HtmlParser m = None) \<and>
   (parse_html bs content = Inl e \<longrightarrow> e = ParsingError) \<and>
   (bs Lxml m = Some t \<longrightarrow> parse_html bs (Some m) = Inr t) \<and>
   (bs Lxml m = None \<and> bs HtmlParser m = Some t \<longrightarrow> parse_html bs (Some m) = Inr t)"
  by (auto simp: parse_html_def BeautifulSoup_def split: option.splits)

theorem parse_html_fallback_witness:
  "parse_html (\<lambda>b m. if b = Lxml then None else Some m) (Some ''<p'') = Inr ''<p''"
proof -
  let ?bs = "\<lambda>b m. if b = Lxml then None else Some (m::string)"
  have "?bs Lxml ''<p'' = None \<and> ?bs HtmlParser ''<p'' = Some ''<p''" by simp
  with parse_html_fallback [of ?bs "''<p''" "Some ''<p''" ParsingError "''<p''"]
  show ?thesis by blast
qed

section \<open>Properties of \<^verbatim>\<open>get_case_by_id\<close>\<close>

text \<open>
  Claim C9 as stated fails: a Legifrance identifier starting with \<^verbatim>\<open>JURITEXT\<close> is not
  a URL, yet it is fetched from the URL built from it and no search is made.
\<close>
theorem get_case_by_id_counterexample:
  "legifrance_get_case_by_id demo_search demo_fetch ''JURITEXT1'' = Inr (Some 2) \<and>
   spec_search_fallback demo_search ''JURITEXT1'' = Inr (Some 1)"
  by (simp add: legifrance_get_case_by_id_def spec_search_fallback_def demo_search_def
        demo_fetch_def startswith_def first_or_none_def)

text \<open>
  Claim C9, amended. In the Legifrance adapter a non-empty identifier that starts neither
  with \<^verbatim>\<open>http\<close> nor with \<^verbatim>\<open>CETATEXT\<close> or \<^verbatim>\<open>JURITEXT\<close> falls back to the
  search with that query and limit 1; in the CanLII adapter a non-empty identifier that
  does not start with \<^verbatim>\<open>http\<close> and contains no slash falls back to the search for
  \<^verbatim>\<open>citation:"<id>"\<close> with limit 1; each returns the first hit or \<^verbatim>\<open>None\<close>. The
  CourtListener adapter never searches: it returns what the opinion endpoint yields, and
  when that raises, what the cluster endpoint yields or \<^verbatim>\<open>None\<close>.
\<close>
theorem get_case_by_id_search_fallback:
  "(case_id \<noteq> [] \<and> \<not> startswith case_id ''http'' \<and>
      \<not> startswith case_id ''CETATEXT'' \<and> \<not> startswith case_id ''JURITEXT'' \<longrightarrow>
      legifrance_get_case_by_id search fetch case_id = spec_search_fallback search case_id) \<and>
   (case_id \<noteq> [] \<and> \<not> startswith case_id ''http'' \<and> CHR ''/'' \<notin> set case_id \<longrightarrow>
      canlii_get_case_by_id search fetch case_id =
        spec_search_fallback search (''citation:'' @ [CHR 0x22] @ case_id @ [CHR 0x22])) \<and>
   (case_id \<noteq> [] \<and> opinion (''https://www.courtlistener.com/api/rest/v3/opinions/'' @ case_id @ ''/'') = Inr r \<longrightarrow>
      courtlistener_get_case_by_id opinion cluster case_id = Inr r) \<and>
   (case_id \<noteq> [] \<and> opinion (''https://www.courtlistener.com/api/rest/v3/opinions/'' @ case_id @ ''/'') = Inl e \<longrightarrow>
      courtlistener_get_case_by_id opinion cluster case_id =
        (case cluster (''https://www.courtlistener.com/api/rest/v3/clusters/'' @ case_id @ ''/'') of
           Inr r' \<Rightarrow> Inr r' | Inl e2 \<Rightarrow> Inr None))"
  by (simp add: legifrance_get_case_by_id_def canlii_get_case_by_id_def
        courtlistener_get_case_by_id_def spec_search_fallback_def)

theorem get_case_by_id_search_fallback_witness:
  "legifrance_get_case_by_id demo_search demo_fetch ''Dupont'' = Inr (Some 1) \<and>
   canlii_get_case_by_id demo_search demo_fetch ''2023 SCC 1'' = Inr (Some 1) \<and>
   courtlistener_get_case_by_id demo_fetch demo_fetch ''12345'' = Inr (Some 2)"
proof -
  have h1: "''Dupont'' \<noteq> [] \<and> \<not> startswith ''Dupont'' ''http'' \<and>
      \<not> startswith ''Dupont'' ''CETATEXT'' \<and> \<not> startswith ''Dupont'' ''JURITEXT''"
    by (simp add: startswith_def)
  have h2: "''2023 SCC 1'' \<noteq> [] \<and> \<not> startswith ''2023 SCC 1'' ''http'' \<and> CHR ''/'' \<notin> set ''2023 SCC 1''"
    by (simp add: startswith_def)
  have h3: "''12345'' \<noteq> [] \<and>
      demo_fetch (''https://www.courtlistener.com/api/rest/v3/opinions/'' @ ''12345'' @ ''/'') = Inr (Some 2)"
    by (simp add: demo_fetch_def)
  have A: "legifrance_get_case_by_id demo_search demo_fetch ''Dupont'' =
             spec_search_fallback demo_search ''Dupont''"
    using get_case_by_id_search_fallback [of "''Dupont''" demo_search demo_fetch] h1 by blast
  have B: "canlii_get_case_by_id demo_search demo_fetch ''2023 SCC 1'' =
             spec_search_fallback demo_search (''citation:'' @ [CHR 0x22] @ ''2023 SCC 1'' @ [CHR 0x22])"
    using get_case_by_id_search_fallback [of "''2023 SCC 1''" demo_search demo_fetch] h2 by blast
  have C: "courtlistener_get_case_by_id demo_fetch demo_fetch ''12345'' = Inr (Some 2)"
    using get_case_by_id_search_fallback [of "''12345''" _ _ demo_fetch "Some 2"] h3 by blast
  from A B C show ?thesis
    by (simp add: spec_search_fallback_def demo_search_def first_or_none_def)
qed

section \<open>Falsy date arguments\<close>

text \<open>
  Claim C10. A falsy date argument is treated as \<^verbatim>\<open>None\<close>: the call behaves as with
  an absent date. The empty string is falsy, so two empty strings give a result with
  no date, although \<^verbatim>\<open>validate_date\<close> on the empty string raises. The parser is
  consulted on non-empty strings only, and a non-empty string on which it raises makes
  the call fail: with \<^verbatim>\<open>ValueError\<close> when the parser raised \<^verbatim>\<open>ValueError\<close> or
  \<^verbatim>\<open>TypeError\<close>, and with the parser's own exception otherwise.
\<close>

theorem validate_search_params_falsy_date:
  "(\<not> truthy x \<longrightarrow>
      validate_search_params p x end lmt = validate_search_params p DateNone end lmt \<and>
      validate_search_params p start x lmt = validate_search_params p start DateNone lmt) \<and>
   \<not> truthy (DateStr []) \<and>
   validate_search_params p (DateStr []) (DateStr []) LimitNone =
     Inr \<lparr>start_date = None, end_date = None, limit = None\<rparr> \<and>
   validate_date p (DateStr []) = Inl (ValueError ''Invalid date format: '') \<and>
   ((\<forall>u. u \<noteq> [] \<longrightarrow> p u = q u) \<longrightarrow>
      validate_search_params p start end lmt = validate_search_params q start end lmt) \<and>
   (t \<noteq> [] \<and> unparseable p t \<longrightarrow>
      (\<exists>e. validate_search_params p (DateStr t) end lmt = Inl e) \<and>
      (\<exists>e. validate_search_params p DateNone (DateStr t) lmt = Inl e)) \<and>
   (t \<noteq> [] \<and> (p t = Inl (ValueError m) \<or> p t = Inl TypeError) \<longrightarrow>
      validate_search_params p (DateStr t) end lmt = Inl (ValueError (''Invalid date format: '' @ t)) \<and>
      validate_search_params p DateNone (DateStr t) lmt = Inl (ValueError (''Invalid date format: '' @ t))) \<and>
   (t \<noteq> [] \<and> p t = Inl e \<and> (\<forall>m'. e \<noteq> ValueError m') \<and> e \<noteq> TypeError \<longrightarrow>
      validate_search_params p (DateStr t) end lmt = Inl e \<and>
      validate_search_params p DateNone (DateStr t) lmt = Inl e)"
proof -
  have falsy: "\<not> truthy x \<longrightarrow>
      validate_search_params p x end lmt = validate_search_params p DateNone end lmt \<and>
      validate_search_params p start x lmt = validate_search_params p start DateNone lmt"
    by (simp add: validate_search_params_def truthy_def)
  have empty: "\<not> truthy (DateStr []) \<and>
      validate_search_params p (DateStr []) (DateStr []) LimitNone =
        Inr \<lparr>start_date = None, end_date = None, limit = None\<rparr> \<and>
      validate_date p (DateStr []) = Inl (ValueError ''Invalid date format: '')"
    by (simp add: validate_search_params_def truthy_def validate_date_def date_parser_parse_def)
  have vd: "validate_date p y = validate_date q y" if "\<forall>u. u \<noteq> [] \<longrightarrow> p u = q u" for y
    using that by (cases y) (simp_all add: validate_date_def date_parser_parse_def)
  have only_nonempty: "(\<forall>u. u \<noteq> [] \<longrightarrow> p u = q u) \<longrightarrow>
      validate_search_params p start end lmt = validate_search_params q start end lmt"
  proof
    assume h: "\<forall>u. u \<noteq> [] \<longrightarrow> p u = q u"
    have same: "validate_date p = validate_date q" by (rule ext) (rule vd [OF h])
    show "validate_search_params p start end lmt = validate_search_params q start end lmt"
      unfolding validate_search_params_def same by (rule refl)
  qed
  have st: "validate_date p (DateStr t) =
              (case p t of
                 Inr d \<Rightarrow> Inr (Some d)
               | Inl (ValueError m) \<Rightarrow> Inl (ValueError (''Invalid date format: '' @ t))
               | Inl TypeError \<Rightarrow> Inl (ValueError (''Invalid date format: '' @ t))
               | Inl e \<Rightarrow> Inl e)" if "t \<noteq> []"
    using that by (simp add: validate_date_def date_parser_parse_def)
  have val: "t \<noteq> [] \<and> (p t = Inl (ValueError m) \<or> p t = Inl TypeError) \<longrightarrow>
      validate_search_params p (DateStr t) end lmt = Inl (ValueError (''Invalid date format: '' @ t)) \<and>
      validate_search_params p DateNone (DateStr t) lmt = Inl (ValueError (''Invalid date format: '' @ t))"
    by (auto simp: validate_search_params_def truthy_def st)
  have oth: "t \<noteq> [] \<and> p t = Inl e \<and> (\<forall>m'. e \<noteq> ValueError m') \<and> e \<noteq> TypeError \<longrightarrow>
      validate_search_params p (DateStr t) end lmt = Inl e \<and>
      validate_search_params p DateNone (DateStr t) lmt = Inl e"
    by (cases e) (auto simp: validate_search_params_def truthy_def st)
  have unp: "t \<noteq> [] \<and> unparseable p t \<longrightarrow>
      (\<exists>e. validate_search_params p (DateStr t) end lmt = Inl e) \<and>
      (\<exists>e. validate_search_params p DateNone (DateStr t) lmt = Inl e)"
  proof (intro impI, elim conjE)
    assume ne: "t \<noteq> []" and u: "unparseable p t"
    then obtain e' where e': "p t = Inl e'"
      by (auto simp: unparseable_def split: sum.splits)
    show "(\<exists>e. validate_search_params p (DateStr t) end lmt = Inl e) \<and>
          (\<exists>e. validate_search_params p DateNone (DateStr t) lmt = Inl e)"
      using ne e' by (cases e') (simp_all add: validate_search_params_def truthy_def st)
  qed
  from falsy empty only_nonempty unp val oth show ?thesis by blast
qed

theorem validate_search_params_falsy_date_witness:
  "validate_search_params demo_parse_date (DateOther False) DateNone LimitNone =
     validate_search_params demo_parse_date DateNone DateNone LimitNone \<and>
   validate_search_params demo_parse_date (DateStr ''next week'') DateNone LimitNone =
     Inl (ValueError ''Invalid date format: next week'') \<and>
   validate_search_params demo_parse_date (DateStr ''99999999999999999999'') DateNone LimitNone =
     Inl OverflowError"
proof -
  have f: "\<not> truthy (DateOther False)" by (simp add: truthy_def)
  have v: "''next week'' \<noteq> [] \<and>
           (demo_parse_date ''next week'' = Inl (ValueError ''Unknown string format'') \<or>
            demo_parse_date ''next week'' = Inl TypeError)"
    by (simp add: demo_parse_date_def)
  have o: "''99999999999999999999'' \<noteq> [] \<and>
           demo_parse_date ''99999999999999999999'' = Inl OverflowError \<and>
           (\<forall>m'. OverflowError \<noteq> ValueError m') \<and> OverflowError \<noteq> TypeError"
    by (simp add: demo_parse_date_def)
  have A: "validate_search_params demo_parse_date (DateOther False) DateNone LimitNone =
             validate_search_params demo_parse_date DateNone DateNone LimitNone"
    using validate_search_params_falsy_date
            [of "DateOther False" demo_parse_date DateNone LimitNone DateNone] f
    by blast
  have B: "validate_search_params demo_parse_date (DateStr ''next week'') DateNone LimitNone =
             Inl (ValueError (''Invalid date format: '' @ ''next week''))"
    using validate_search_params_falsy_date
            [of _ demo_parse_date DateNone LimitNone _ _ "''next week''" "''Unknown string format''"] v
    by blast
  have C: "validate_search_params demo_parse_date (DateStr ''99999999999999999999'') DateNone
             LimitNone = Inl OverflowError"
    using validate_search_params_falsy_date
            [of _ demo_parse_date DateNone LimitNone _ _ "''99999999999999999999''" _ OverflowError] o
    by blast
  from A B C show ?thesis by simp
qed

end
